theory Spec2Isabelle
  imports Complex_Main
begin

section \<open>Data model of \<open>src/app/main.js\<close>\<close>

text \<open>
  JavaScript numbers are modelled as \<^typ>\<open>real\<close> (no rounding, no NaN); array indices
  and \<open>currentStep\<close> are \<^typ>\<open>nat\<close>. An optional JSON field is an \<open>option\<close>. A thrown
  \<open>TypeError\<close> (a property read on \<open>undefined\<close>) is the left injection of a sum.
\<close>

datatype js_error = TypeError

record zone =
  zone_id :: string
  zone_name :: string
  zone_x :: real
  zone_width :: real

record obstacle =
  o_zoneIndex :: nat
  o_x :: real
  o_y :: real
  o_width :: real
  o_height :: real

record building =
  b_npcId :: string
  b_zoneIndex :: nat
  b_x :: real
  b_y :: real
  b_width :: real
  b_height :: real
  b_doorX :: real
  b_doorY :: real

record npc =
  npc_id :: string
  npc_dialogueIndex :: nat
  npc_x :: real
  npc_y :: real
  npc_zoneIndex :: nat
  npc_skill :: string
  npc_difficulty :: real
  npc_dx :: real
  npc_dy :: real

record interior =
  int_npcId :: string
  int_width :: real
  int_height :: real
  int_doorX :: real
  int_doorY :: real
  int_spawnX :: real
  int_spawnY :: real
  int_npc :: npc

record status_effect =
  eff_name :: string
  eff_type :: string
  eff_value :: real
  eff_time :: real

text \<open>
  The text of a transient message: one constructor per template literal passed to
  \<open>addMessage\<close> in the source, with the interpolated value as argument.
\<close>

datatype message_text =
    Collected string
  | Bought string
  | NotEnoughGold
  | Received string
  | Healed real
  | Fainted
  | StartedQuest string
  | NoRequiredItems
  | SkillCheckPassed string
  | SkillCheckFailed string
  | QuestCompleted string
  | StepCompleted string

record message =
  msg_text :: message_text
  msg_time :: real

record world_object =
  obj_itemId :: string
  obj_x :: real
  obj_y :: real

record item =
  item_id :: string
  item_name :: string
  item_category :: string

record dlg_option =
  choice_text :: string
  to_id :: "string option"
  opt_grants_item_ids :: "string list option"

record node =
  node_id :: string
  speaker :: string
  node_text :: string
  grants_item_ids :: "string list option"
  options :: "dlg_option list option"

record dialogue =
  dlg_id :: string
  nodes :: "node list"

record step =
  goal :: string
  location_hint :: string
  requires_item_ids :: "string list option"

record quest =
  q_id :: string
  q_title :: string
  q_is_main :: bool
  q_steps :: "step list"

datatype quest_status = NotStarted | InProgress | Completed

record quest_state =
  qs_id :: string
  qs_title :: string
  qs_is_main :: bool
  steps :: "step list"
  status :: quest_status
  currentStep :: nat
  stepAssignments :: "string list"

record player_state =
  p_x :: real
  p_y :: real
  baseSpeed :: real
  speed :: real
  vx :: real
  vy :: real
  hp :: real
  maxHp :: real
  gold :: real
  skills :: "(string \<times> real) list"
  inventory :: "string list"
  abilityCooldown :: "(string \<times> real) list"

record screen_size =
  scr_w :: real
  scr_h :: real
  safeBottom :: real

record talk_state =
  talk_npcId :: string
  talk_dialogueIndex :: nat
  currentNode :: node

text \<open>
  The global object \<open>G\<close> together with the loaded content (\<open>dialoguesData.dialogues\<close>,
  \<open>inventoryData.items\<close>). \<open>rand_draws\<close> counts the calls of \<open>Math.random()\<close> made so
  far: the k-th call returns the k-th element of a sequence given as a parameter.
  \<open>currentInterior\<close> holds the interior itself (in the source a reference into
  \<open>G.interiors\<close>).
\<close>

record game =
  player :: player_state
  screen :: screen_size
  zones :: "zone list"
  npcs :: "npc list"
  objects :: "world_object list"
  statusEffects :: "status_effect list"
  messages :: "message list"
  questsState :: "quest_state list"
  talk :: "talk_state option"
  buildings :: "building list"
  interiors :: "interior list"
  obstacles :: "obstacle list"
  inInterior :: bool
  currentInterior :: "interior option"
  shopStock :: "item list option"
  dialogues :: "dialogue list"
  items :: "item list"
  rand_draws :: nat

type_synonym rand = "nat \<Rightarrow> real"

section \<open>Helpers\<close>

definition Math_random :: "rand \<Rightarrow> game \<Rightarrow> real \<times> game" where
  "Math_random rnd g = (rnd (rand_draws g), g\<lparr>rand_draws := Suc (rand_draws g)\<rparr>)"

definition addMessage :: "message_text \<Rightarrow> game \<Rightarrow> game" where
  "addMessage t g = g\<lparr>messages := messages g @ [\<lparr>msg_text = t, msg_time = 3\<rparr>]\<rparr>"

definition getItemName :: "game \<Rightarrow> string \<Rightarrow> string" where
  "getItemName g itemId =
     (case find (\<lambda>it. item_id it = itemId) (items g) of
        Some it \<Rightarrow> item_name it
      | None \<Rightarrow> itemId)"

definition getItemPrice :: "item \<Rightarrow> real" where
  "getItemPrice it =
     (let cat = item_category it in
      if cat = ''weapon'' \<or> cat = ''armor'' then 30
      else if cat = ''quest'' then 10
      else 20)"

section \<open>Health, gold and the shop\<close>

definition healPlayer :: "real \<Rightarrow> game \<Rightarrow> game" where
  "healPlayer amount g =
     addMessage (Healed amount)
       (g\<lparr>player := (player g)\<lparr>hp := min (maxHp (player g)) (hp (player g) + amount)\<rparr>\<rparr>)"

definition damagePlayer :: "real \<Rightarrow> game \<Rightarrow> game" where
  "damagePlayer amount g =
     (let g1 = g\<lparr>player := (player g)\<lparr>hp := hp (player g) - amount\<rparr>\<rparr> in
      if hp (player g1) \<le> 0 then
        addMessage Fainted
          (g1\<lparr>player := (player g1)
               \<lparr>hp := maxHp (player g1),
                p_x := scr_w (screen g1) / 2,
                p_y := scr_h (screen g1) / 2,
                gold := max 0 (gold (player g1) - 10)\<rparr>\<rparr>)
      else g1)"

definition purchaseItem :: "item \<Rightarrow> game \<Rightarrow> js_error + game" where
  "purchaseItem it g =
     (let price = getItemPrice it in
      if gold (player g) \<ge> price then
        (let g1 = addMessage (Bought (item_name it))
                    (g\<lparr>player := (player g)
                         \<lparr>gold := gold (player g) - price,
                          inventory := inventory (player g) @ [item_id it]\<rparr>\<rparr>)
         in case shopStock g1 of
              None \<Rightarrow> Inl TypeError
            | Some stock \<Rightarrow>
                Inr (g1\<lparr>shopStock := Some (filter (\<lambda>i. item_id i \<noteq> item_id it) stock)\<rparr>))
      else Inr (addMessage NotEnoughGold g))"

section \<open>Dialogue item grants\<close>

fun grantItems :: "string list \<Rightarrow> game \<Rightarrow> game" where
  "grantItems [] g = g"
| "grantItems (i # ids) g =
     grantItems ids
       (if i \<in> set (inventory (player g)) then g
        else addMessage (Received (getItemName g i))
               (g\<lparr>player := (player g)
                    \<lparr>inventory := inventory (player g) @ [i],
                     gold := gold (player g) + 5\<rparr>\<rparr>))"

section \<open>Skill check\<close>

definition performSkillCheck :: "rand \<Rightarrow> string \<Rightarrow> real \<Rightarrow> game \<Rightarrow> bool \<times> game" where
  "performSkillCheck rnd skill difficulty g =
     (let playerSkill = (case map_of (skills (player g)) skill of None \<Rightarrow> 0 | Some v \<Rightarrow> v);
          bonus = foldl (\<lambda>b eff. if eff_type eff = skill then b + eff_value eff else b) 0
                    (statusEffects g);
          (roll, g1) = Math_random rnd g
      in (roll < (playerSkill + bonus) - difficulty + 0.5, g1))"

section \<open>Quest state machine\<close>

definition npcForStep :: "npc list \<Rightarrow> nat \<Rightarrow> npc option" where
  \<comment> \<open>\<open>G.npcs[k % npcCount]\<close>: with no NPC the index is NaN and the read is \<open>undefined\<close>.\<close>
  "npcForStep ns k = (if length ns = 0 then None else Some (ns ! (k mod length ns)))"

fun assignSteps :: "npc list \<Rightarrow> nat \<Rightarrow> nat \<Rightarrow> step list \<Rightarrow> js_error + string list" where
  "assignSteps ns qIndex i [] = Inr []"
| "assignSteps ns qIndex i (s # ss) =
     (case npcForStep ns (qIndex + i) of
        None \<Rightarrow> Inl TypeError
      | Some n \<Rightarrow>
          (case assignSteps ns qIndex (Suc i) ss of
             Inl e \<Rightarrow> Inl e
           | Inr as \<Rightarrow> Inr (npc_id n # as)))"

fun initQuests :: "npc list \<Rightarrow> nat \<Rightarrow> quest list \<Rightarrow> js_error + quest_state list" where
  "initQuests ns qIndex [] = Inr []"
| "initQuests ns qIndex (q # qs) =
     (case assignSteps ns qIndex 0 (q_steps q) of
        Inl e \<Rightarrow> Inl e
      | Inr as \<Rightarrow>
          (case initQuests ns (Suc qIndex) qs of
             Inl e \<Rightarrow> Inl e
           | Inr rest \<Rightarrow>
               Inr (\<lparr>qs_id = q_id q, qs_title = q_title q, qs_is_main = q_is_main q,
                      steps = q_steps q, status = NotStarted, currentStep = 0,
                      stepAssignments = as\<rparr> # rest)))"

definition initQuestsState :: "quest list \<Rightarrow> game \<Rightarrow> js_error + game" where
  "initQuestsState quests g =
     (case initQuests (npcs g) 0 quests of
        Inl e \<Rightarrow> Inl e
      | Inr qss \<Rightarrow> Inr (g\<lparr>questsState := qss\<rparr>))"

definition required :: "step \<Rightarrow> string list" where
  \<comment> \<open>\<open>step.requires_item_ids || []\<close>\<close>
  "required st = (case requires_item_ids st of None \<Rightarrow> [] | Some l \<Rightarrow> l)"

definition grantedByDialogue :: "dialogue list \<Rightarrow> string \<Rightarrow> bool" where
  "grantedByDialogue ds itemId =
     list_ex (\<lambda>dlg. list_ex (\<lambda>n. itemId \<in> set (case grants_item_ids n of None \<Rightarrow> [] | Some l \<Rightarrow> l))
                      (nodes dlg)) ds"

definition toSpawn :: "game \<Rightarrow> step \<Rightarrow> string list" where
  "toSpawn g st =
     filter (\<lambda>itemId. \<not> grantedByDialogue (dialogues g) itemId \<and>
                     itemId \<notin> set (inventory (player g)) \<and>
                     \<not> list_ex (\<lambda>ob. obj_itemId ob = itemId) (objects g))
       (required st)"

fun spawnObjects :: "rand \<Rightarrow> string list \<Rightarrow> game \<Rightarrow> js_error + game" where
  "spawnObjects rnd [] g = Inr g"
| "spawnObjects rnd (itemId # rest) g =
     (let zoneCount = (if length (zones g) = 0 then 1 else length (zones g));
          r1 = fst (Math_random rnd g);
          g1 = snd (Math_random rnd g);
          k = \<lfloor>r1 * real zoneCount\<rfloor>
      in if 0 \<le> k \<and> nat k < length (zones g1) then
           (let zone = zones g1 ! nat k;
                r2 = fst (Math_random rnd g1);
                g2 = snd (Math_random rnd g1);
                x = zone_x zone + r2 * zone_width zone;
                r3 = fst (Math_random rnd g2);
                g3 = snd (Math_random rnd g2);
                y = 80 + r3 * (scr_h (screen g3) - safeBottom (screen g3) - 120)
            in spawnObjects rnd rest
                 (g3\<lparr>objects := objects g3 @ [\<lparr>obj_itemId = itemId, obj_x = x, obj_y = y\<rparr>]\<rparr>))
         else Inl TypeError)"

definition spawnItemsForStep :: "rand \<Rightarrow> quest_state \<Rightarrow> nat \<Rightarrow> game \<Rightarrow> js_error + game" where
  "spawnItemsForStep rnd qs stepIndex g =
     (if stepIndex < length (steps qs)
      then spawnObjects rnd (toSpawn g (steps qs ! stepIndex)) g
      else Inr g)"

definition firstIndex :: "('a \<Rightarrow> bool) \<Rightarrow> 'a list \<Rightarrow> nat" where
  \<comment> \<open>position of the element that \<open>Array.prototype.find\<close> returns\<close>
  "firstIndex P xs = length (takeWhile (\<lambda>x. \<not> P x) xs)"

definition startQuest :: "rand \<Rightarrow> string \<Rightarrow> game \<Rightarrow> js_error + game" where
  "startQuest rnd qid g =
     (case find (\<lambda>q. qs_id q = qid) (questsState g) of
        None \<Rightarrow> Inr g
      | Some qs \<Rightarrow>
          if status qs \<noteq> NotStarted then Inr g
          else
            (let qs1 = qs\<lparr>status := InProgress, currentStep := 0\<rparr>;
                 g1 = addMessage (StartedQuest (qs_title qs1))
                        (g\<lparr>questsState :=
                             (questsState g)[firstIndex (\<lambda>q. qs_id q = qid) (questsState g) := qs1]\<rparr>)
             in spawnItemsForStep rnd qs1 0 g1))"

fun deliverSearch ::
  "string \<Rightarrow> string list \<Rightarrow> quest_state list \<Rightarrow> nat \<Rightarrow> js_error + (nat \<times> nat) option" where
  "deliverSearch npcId held [] i = Inr None"
| "deliverSearch npcId held (qs # rest) i =
     (if status qs = InProgress then
        (let stepIdx = currentStep qs in
         if stepIdx < length (stepAssignments qs) \<and> stepAssignments qs ! stepIdx = npcId then
           (if stepIdx < length (steps qs) then
              (if list_all (\<lambda>itemId. itemId \<in> set held) (required (steps qs ! stepIdx))
               then Inr (Some (i, stepIdx))
               else deliverSearch npcId held rest (Suc i))
            else Inl TypeError)
         else deliverSearch npcId held rest (Suc i))
      else deliverSearch npcId held rest (Suc i))"

definition getDeliverInfoForNPC :: "string \<Rightarrow> game \<Rightarrow> js_error + (nat \<times> nat) option" where
  \<comment> \<open>the result is the index of the quest in \<open>G.questsState\<close> and the step index\<close>
  "getDeliverInfoForNPC npcId g =
     deliverSearch npcId (inventory (player g)) (questsState g) 0"

definition removeItems :: "string list \<Rightarrow> string list \<Rightarrow> string list" where
  \<comment> \<open>for each required id, \<open>indexOf\<close> and \<open>splice\<close> drop its first occurrence\<close>
  "removeItems req held = foldl (\<lambda>acc itemId. remove1 itemId acc) held req"

definition finishQuestStepsOnTalk :: "rand \<Rightarrow> string \<Rightarrow> game \<Rightarrow> js_error + game" where
  "finishQuestStepsOnTalk rnd npcId g =
     (case getDeliverInfoForNPC npcId g of
        Inl e \<Rightarrow> Inl e
      | Inr None \<Rightarrow> Inr (addMessage NoRequiredItems g)
      | Inr (Some (qi, stepIdx)) \<Rightarrow>
          (case find (\<lambda>n. npc_id n = npcId) (npcs g) of
             None \<Rightarrow> Inl TypeError
           | Some n \<Rightarrow>
               (let qs = questsState g ! qi;
                    st = steps qs ! stepIdx;
                    skill = npc_skill n;
                    difficulty = npc_difficulty n;
                    success = fst (performSkillCheck rnd skill difficulty g);
                    g1 = snd (performSkillCheck rnd skill difficulty g);
                    g2 = (if success then addMessage (SkillCheckPassed skill) g1
                          else damagePlayer 10 (addMessage (SkillCheckFailed skill) g1));
                    g3 = g2\<lparr>player := (player g2)
                              \<lparr>inventory := removeItems (required st) (inventory (player g2))\<rparr>\<rparr>;
                    qs1 = qs\<lparr>currentStep := Suc (currentStep qs)\<rparr>
                in if currentStep qs1 \<ge> length (steps qs1) then
                     (let qs2 = qs1\<lparr>status := Completed\<rparr>;
                          g4 = addMessage (QuestCompleted (qs_title qs2))
                                 (g3\<lparr>questsState := (questsState g3)[qi := qs2]\<rparr>)
                      in Inr (g4\<lparr>player := (player g4)\<lparr>gold := gold (player g4) + 50\<rparr>\<rparr>))
                   else
                     (let g4 = addMessage (StepCompleted (goal st))
                                 (g3\<lparr>questsState := (questsState g3)[qi := qs1]\<rparr>);
                          g5 = g4\<lparr>player := (player g4)\<lparr>gold := gold (player g4) + 20\<rparr>\<rparr>
                      in spawnItemsForStep rnd qs1 (currentStep qs1) g5))))"

section \<open>Dialogue engine\<close>

definition grantOptional :: "string list option \<Rightarrow> game \<Rightarrow> game" where
  \<comment> \<open>\<open>if (x.grants_item_ids) grantItems(x.grants_item_ids)\<close>\<close>
  "grantOptional ids g = (case ids of None \<Rightarrow> g | Some l \<Rightarrow> grantItems l g)"

definition startTalk :: "npc \<Rightarrow> game \<Rightarrow> js_error + game" where
  "startTalk n g =
     (if npc_dialogueIndex n < length (dialogues g) then
        (case nodes (dialogues g ! npc_dialogueIndex n) of
           [] \<Rightarrow> Inl TypeError
         | first # _ \<Rightarrow>
             Inr (grantOptional (grants_item_ids first)
                    (g\<lparr>talk := Some \<lparr>talk_npcId = npc_id n,
                                       talk_dialogueIndex = npc_dialogueIndex n,
                                       currentNode = first\<rparr>\<rparr>)))
      else Inr g)"

definition truthy :: "string option \<Rightarrow> bool" where
  \<comment> \<open>\<open>if (option.to_id)\<close>: a missing field and the empty string are falsy\<close>
  "truthy s = (case s of None \<Rightarrow> False | Some t \<Rightarrow> t \<noteq> [])"

definition selectOption :: "dlg_option \<Rightarrow> game \<Rightarrow> js_error + game" where
  \<comment> \<open>the click handler that \<open>drawTalkOverlay\<close> registers for an option of the current
      node; it exists only while \<open>G.talk\<close> is set\<close>
  "selectOption opt g =
     (case talk g of
        None \<Rightarrow> Inr g
      | Some t \<Rightarrow>
          (let g1 = grantOptional (opt_grants_item_ids opt) g in
           if truthy (to_id opt) then
             (if talk_dialogueIndex t < length (dialogues g1) then
                (case find (\<lambda>n. Some (node_id n) = to_id opt)
                        (nodes (dialogues g1 ! talk_dialogueIndex t)) of
                   Some next \<Rightarrow>
                     Inr (grantOptional (grants_item_ids next)
                            (g1\<lparr>talk := Some (t\<lparr>currentNode := next\<rparr>)\<rparr>))
                 | None \<Rightarrow> Inr g1)
              else Inl TypeError)
           else Inr (g1\<lparr>talk := None\<rparr>)))"

section \<open>Frame update\<close>

definition overlaps :: "real \<Rightarrow> real \<Rightarrow> real \<Rightarrow> real \<Rightarrow> real \<Rightarrow> real \<Rightarrow> bool" where
  \<comment> \<open>the player's box of half-extent 16 at \<open>(px, py)\<close> against the rectangle
      \<open>(rx, ry, rw, rh)\<close>: the condition of the \<open>if\<close> in both collision loops\<close>
  "overlaps px py rx ry rw rh =
     (px + 16 > rx \<and> px - 16 < rx + rw \<and> py + 16 > ry \<and> py - 16 < ry + rh)"

definition pushOut :: "real \<Rightarrow> real \<Rightarrow> real \<Rightarrow> real \<Rightarrow> real \<Rightarrow> real \<Rightarrow> real \<times> real" where
  \<comment> \<open>the body of that \<open>if\<close>: the new position of the player\<close>
  "pushOut px py rx ry rw rh =
     (let dxLeft = rx - (px + 16);
          dxRight = (rx + rw) - (px - 16);
          dyTop = ry - (py + 16);
          dyBottom = (ry + rh) - (py - 16);
          absX = min \<bar>dxLeft\<bar> \<bar>dxRight\<bar>;
          absY = min \<bar>dyTop\<bar> \<bar>dyBottom\<bar>
      in if absX < absY then
           (if \<bar>dxLeft\<bar> < \<bar>dxRight\<bar> then (rx - 16, py) else (rx + rw + 16, py))
         else
           (if \<bar>dyTop\<bar> < \<bar>dyBottom\<bar> then (px, ry - 16) else (px, ry + rh + 16)))"

definition setPosition :: "real \<times> real \<Rightarrow> game \<Rightarrow> game" where
  "setPosition xy g = g\<lparr>player := (player g)\<lparr>p_x := fst xy, p_y := snd xy\<rparr>\<rparr>"

definition collideObstacle :: "obstacle \<Rightarrow> game \<Rightarrow> game" where
  "collideObstacle ob g =
     (let px = p_x (player g); py = p_y (player g) in
      if overlaps px py (o_x ob) (o_y ob) (o_width ob) (o_height ob)
      then setPosition (pushOut px py (o_x ob) (o_y ob) (o_width ob) (o_height ob)) g
      else g)"

definition collideObstacles :: "obstacle list \<Rightarrow> game \<Rightarrow> game" where
  \<comment> \<open>\<open>G.obstacles.forEach(o => ...)\<close>\<close>
  "collideObstacles obs g = foldl (\<lambda>acc ob. collideObstacle ob acc) g obs"

definition collideBuilding :: "building \<Rightarrow> game \<Rightarrow> game" where
  "collideBuilding b g =
     (let px = p_x (player g); py = p_y (player g) in
      if overlaps px py (b_x b) (b_y b) (b_width b) (b_height b) then
        (let doorW = b_width b * 0.2;
             doorX0 = b_doorX b - doorW / 2;
             doorX1 = b_doorX b + doorW / 2;
             withinDoor = (px > doorX0 \<and> px < doorX1 \<and> py + 16 > b_y b + b_height b)
         in if \<not> withinDoor
            then setPosition (pushOut px py (b_x b) (b_y b) (b_width b) (b_height b)) g
            else g)
      else g)"

definition wanderStep :: "rand \<Rightarrow> real \<Rightarrow> real \<Rightarrow> real \<Rightarrow> npc \<Rightarrow> game \<Rightarrow> npc \<times> game" where
  \<comment> \<open>with probability \<open>chance\<close> pick a new direction of length \<open>spd\<close>, then move by
      \<open>dt\<close>: the first lines of the NPC code of \<open>updateWorld\<close> (0.01, 40) and of
      \<open>updateInterior\<close> (0.02, 20)\<close>
  "wanderStep rnd chance spd dt n g =
     (let r = fst (Math_random rnd g);
          g1 = snd (Math_random rnd g);
          angle = fst (Math_random rnd g1) * pi * 2;
          n1 = (if r < chance then n\<lparr>npc_dx := cos angle * spd, npc_dy := sin angle * spd\<rparr> else n);
          g2 = (if r < chance then snd (Math_random rnd g1) else g1)
      in (n1\<lparr>npc_x := npc_x n1 + npc_dx n1 * dt, npc_y := npc_y n1 + npc_dy n1 * dt\<rparr>, g2))"

definition bounceLow :: "real \<Rightarrow> real \<times> real \<Rightarrow> real \<times> real" where
  \<comment> \<open>\<open>if (pos < lo) { pos = lo; vel = Math.abs(vel); }\<close> on a pair (pos, vel)\<close>
  "bounceLow lo pv = (if fst pv < lo then (lo, \<bar>snd pv\<bar>) else pv)"

definition bounceHigh :: "real \<Rightarrow> real \<times> real \<Rightarrow> real \<times> real" where
  \<comment> \<open>\<open>if (pos > hi) { pos = hi; vel = -Math.abs(vel); }\<close>\<close>
  "bounceHigh hi pv = (if fst pv > hi then (hi, - \<bar>snd pv\<bar>) else pv)"

definition keepInside :: "real \<Rightarrow> real \<Rightarrow> real \<Rightarrow> real \<Rightarrow> npc \<Rightarrow> npc" where
  \<comment> \<open>the four bound checks, in the source's order: low x, high x, low y, high y\<close>
  "keepInside loX hiX loY hiY n =
     (let xv = bounceHigh hiX (bounceLow loX (npc_x n, npc_dx n));
          yv = bounceHigh hiY (bounceLow loY (npc_y n, npc_dy n))
      in n\<lparr>npc_x := fst xv, npc_dx := snd xv, npc_y := fst yv, npc_dy := snd yv\<rparr>)"

definition wanderNPC :: "rand \<Rightarrow> real \<Rightarrow> npc \<Rightarrow> game \<Rightarrow> js_error + npc \<times> game" where
  "wanderNPC rnd dt n g =
     (let n2 = fst (wanderStep rnd 0.01 40 dt n g);
          g2 = snd (wanderStep rnd 0.01 40 dt n g)
      in if npc_zoneIndex n2 < length (zones g2) then
           (let z = zones g2 ! npc_zoneIndex n2
            in Inr (keepInside (zone_x z + 20) (zone_x z + zone_width z - 20)
                      80 (scr_h (screen g2) - safeBottom (screen g2) - 20) n2, g2))
         else Inl TypeError)"

fun wanderNPCs :: "rand \<Rightarrow> real \<Rightarrow> npc list \<Rightarrow> game \<Rightarrow> js_error + npc list \<times> game" where
  "wanderNPCs rnd dt [] g = Inr ([], g)"
| "wanderNPCs rnd dt (n # ns) g =
     (case wanderNPC rnd dt n g of
        Inl e \<Rightarrow> Inl e
      | Inr (n', g1) \<Rightarrow>
          (case wanderNPCs rnd dt ns g1 of
             Inl e \<Rightarrow> Inl e
           | Inr (ns', g2) \<Rightarrow> Inr (n' # ns', g2)))"

definition near :: "game \<Rightarrow> world_object \<Rightarrow> bool" where
  "near g ob =
     (let dx = obj_x ob - p_x (player g); dy = obj_y ob - p_y (player g)
      in dx * dx + dy * dy < 20 * 20)"

fun collectObjects :: "world_object list \<Rightarrow> game \<Rightarrow> game" where
  \<comment> \<open>the pickup loop; the list is \<open>G.objects\<close> in the loop's order, last index first\<close>
  "collectObjects [] g = g"
| "collectObjects (ob # rest) g =
     collectObjects rest
       (if near g ob \<and> obj_itemId ob \<notin> set (inventory (player g))
        then addMessage (Collected (getItemName g (obj_itemId ob)))
               (g\<lparr>player := (player g)\<lparr>inventory := inventory (player g) @ [obj_itemId ob]\<rparr>\<rparr>)
        else g)"

definition updateWorld :: "rand \<Rightarrow> real \<Rightarrow> game \<Rightarrow> js_error + game" where
  "updateWorld rnd dt g =
     (let g1 = g\<lparr>player := (player g)
                   \<lparr>p_x := max 16 (min (scr_w (screen g) - 16) (p_x (player g))),
                    p_y := max 80 (min (scr_h (screen g) - safeBottom (screen g) - 16)
                                     (p_y (player g)))\<rparr>\<rparr>
      in case wanderNPCs rnd dt (npcs g1) g1 of
           Inl e \<Rightarrow> Inl e
         | Inr (ns, g2) \<Rightarrow>
             (let g3 = collideObstacles (obstacles g2) (g2\<lparr>npcs := ns\<rparr>);
                  g4 = foldl (\<lambda>acc b. collideBuilding b acc) g3 (buildings g3);
                  g5 = collectObjects (rev (objects g4)) g4
              in Inr (g5\<lparr>objects := filter (\<lambda>ob. \<not> near g5 ob) (objects g5)\<rparr>)))"

definition updateInterior :: "rand \<Rightarrow> real \<Rightarrow> game \<Rightarrow> game" where
  "updateInterior rnd dt g =
     (case currentInterior g of
        None \<Rightarrow> g
      | Some interior \<Rightarrow>
          (let intX = (scr_w (screen g) - int_width interior) / 2;
               intY = (scr_h (screen g) - safeBottom (screen g) - int_height interior) / 2;
               pad = 16;
               minX = intX + pad;
               maxX = intX + int_width interior - pad;
               minY = intY + pad;
               maxY = intY + int_height interior - pad;
               g1 = g\<lparr>player := (player g)
                         \<lparr>p_x := max minX (min maxX (p_x (player g))),
                          p_y := max minY (min maxY (p_y (player g)))\<rparr>\<rparr>;
               n2 = fst (wanderStep rnd 0.02 20 dt (int_npc interior) g1);
               g3 = snd (wanderStep rnd 0.02 20 dt (int_npc interior) g1);
               halfW = int_width interior / 2 - 20;
               halfH = int_height interior / 2 - 40
           in g3\<lparr>currentInterior :=
                   Some (interior\<lparr>int_npc := keepInside (- halfW) halfW (- halfH) halfH n2\<rparr>)\<rparr>))"

definition tickTimers :: "real \<Rightarrow> game \<Rightarrow> game" where
  \<comment> \<open>the tail of \<open>update\<close>: message timers, ability cooldowns, derived speed\<close>
  "tickTimers dt g =
     (let g1 = g\<lparr>messages :=
                   filter (\<lambda>m. msg_time m > 0)
                     (map (\<lambda>m. m\<lparr>msg_time := msg_time m - dt\<rparr>) (messages g))\<rparr>;
          g2 = g1\<lparr>player := (player g1)
                    \<lparr>abilityCooldown :=
                       map (\<lambda>(ab, cd). (ab, max 0 (cd - dt))) (abilityCooldown (player g1))\<rparr>\<rparr>;
          speedMult = foldl (\<lambda>acc eff. if eff_type eff = ''speed'' then acc + eff_value eff else acc)
                        1 (statusEffects g2)
      in g2\<lparr>player := (player g2)\<lparr>speed := baseSpeed (player g2) * speedMult\<rparr>\<rparr>)"

definition update :: "rand \<Rightarrow> real \<Rightarrow> game \<Rightarrow> js_error + game" where
  "update rnd dt g =
     (let g1 = g\<lparr>player := (player g)
                   \<lparr>p_x := p_x (player g) + vx (player g) * dt,
                    p_y := p_y (player g) + vy (player g) * dt\<rparr>\<rparr>
      in case (if inInterior g1 then Inr (updateInterior rnd dt g1) else updateWorld rnd dt g1) of
           Inl e \<Rightarrow> Inl e
         | Inr g2 \<Rightarrow> Inr (tickTimers dt g2))"

section \<open>The initial state\<close>

definition G_initial :: game where
  \<comment> \<open>the literal \<open>const G = {...}\<close>, before any content is loaded\<close>
  "G_initial =
     \<lparr>player = \<lparr>p_x = 0, p_y = 0, baseSpeed = 120, speed = 120, vx = 0, vy = 0,
                 hp = 100, maxHp = 100, gold = 50,
                 skills = [(''charisma'', 0.5), (''strength'', 0.5), (''agility'', 0.5)],
                 inventory = [], abilityCooldown = []\<rparr>,
      screen = \<lparr>scr_w = 0, scr_h = 0, safeBottom = 0\<rparr>,
      zones = [], npcs = [], objects = [], statusEffects = [], messages = [],
      questsState = [], talk = None, buildings = [], interiors = [], obstacles = [],
      inInterior = False, currentInterior = None, shopStock = None,
      dialogues = [], items = [], rand_draws = 0\<rparr>"

section \<open>Reference definitions in the words of the specification\<close>

definition skill_base :: "game \<Rightarrow> string \<Rightarrow> real" where
  \<comment> \<open>the player's level in the named skill, 0 if undefined\<close>
  "skill_base g skill = (case map_of (skills (player g)) skill of None \<Rightarrow> 0 | Some v \<Rightarrow> v)"

definition skill_bonus :: "game \<Rightarrow> string \<Rightarrow> real" where
  \<comment> \<open>the sum of \<open>value\<close> over the active effects whose \<open>type\<close> is the skill name\<close>
  "skill_bonus g skill =
     sum_list (map eff_value (filter (\<lambda>e. eff_type e = skill) (statusEffects g)))"

definition spec_skillCheck :: "real \<Rightarrow> real \<Rightarrow> real \<Rightarrow> real \<Rightarrow> bool" where
  "spec_skillCheck base bonus difficulty roll = (roll < base + bonus - difficulty + 0.5)"

definition spec_obtainableViaDialogue :: "dialogue list \<Rightarrow> string \<Rightarrow> bool" where
  \<comment> \<open>an item is obtainable via a dialogue's item grants when a node grants it on arrival or
      an option of a node grants it on selection\<close>
  "spec_obtainableViaDialogue ds itemId =
     list_ex (\<lambda>dlg. list_ex (\<lambda>n.
         itemId \<in> set (case grants_item_ids n of None \<Rightarrow> [] | Some l \<Rightarrow> l) \<or>
         list_ex (\<lambda>opt. itemId \<in> set (case opt_grants_item_ids opt of None \<Rightarrow> [] | Some l \<Rightarrow> l))
           (case options n of None \<Rightarrow> [] | Some os \<Rightarrow> os))
       (nodes dlg)) ds"

section \<open>Predicates used in the statements\<close>

definition deliverable :: "string \<Rightarrow> string list \<Rightarrow> quest_state \<Rightarrow> bool" where
  \<comment> \<open>the quest is in progress, the NPC is the assignee of its current step and every
      required item of that step is held\<close>
  "deliverable npcId held qs =
     (status qs = InProgress \<and>
      currentStep qs < length (stepAssignments qs) \<and>
      stepAssignments qs ! currentStep qs = npcId \<and>
      list_all (\<lambda>itemId. itemId \<in> set held) (required (steps qs ! currentStep qs)))"

definition wellAssigned :: "quest_state \<Rightarrow> bool" where
  \<comment> \<open>one assignee per step, as \<open>initQuestsState\<close> builds it\<close>
  "wellAssigned qs = (length (stepAssignments qs) = length (steps qs))"

definition afterCheck :: "bool \<Rightarrow> game \<Rightarrow> game" where
  \<comment> \<open>the consequence of the skill check of a delivery: a failed check costs 10 hp\<close>
  "afterCheck success g = (if success then g else damagePlayer 10 g)"

definition player_ok :: "game \<Rightarrow> bool" where
  \<comment> \<open>the invariant on gold and hit points\<close>
  "player_ok g = (0 \<le> gold (player g) \<and> 0 < hp (player g) \<and> hp (player g) \<le> maxHp (player g))"

definition overlapsObstacle :: "game \<Rightarrow> obstacle \<Rightarrow> bool" where
  \<comment> \<open>the player's box overlaps the obstacle\<close>
  "overlapsObstacle g ob =
     overlaps (p_x (player g)) (p_y (player g)) (o_x ob) (o_y ob) (o_width ob) (o_height ob)"

section \<open>Collision with an obstacle in rounded arithmetic\<close>


definition overlaps_fl :: "(real \<Rightarrow> real) \<Rightarrow> real \<Rightarrow> real \<Rightarrow> real \<Rightarrow> real \<Rightarrow> real \<Rightarrow> real \<Rightarrow> bool" where
  "overlaps_fl rd px py rx ry rw rh =
     (rd (px + 16) > rx \<and> rd (px - 16) < rd (rx + rw) \<and>
      rd (py + 16) > ry \<and> rd (py - 16) < rd (ry + rh))"

definition pushOut_fl :: "(real \<Rightarrow> real) \<Rightarrow> real \<Rightarrow> real \<Rightarrow> real \<Rightarrow> real \<Rightarrow> real \<Rightarrow> real \<Rightarrow> real \<times> real" where
  "pushOut_fl rd px py rx ry rw rh =
     (let dxLeft = rd (rx - rd (px + 16));
          dxRight = rd (rd (rx + rw) - rd (px - 16));
          dyTop = rd (ry - rd (py + 16));
          dyBottom = rd (rd (ry + rh) - rd (py - 16));
          absX = min \<bar>dxLeft\<bar> \<bar>dxRight\<bar>;
          absY = min \<bar>dyTop\<bar> \<bar>dyBottom\<bar>
      in if absX < absY then
           (if \<bar>dxLeft\<bar> < \<bar>dxRight\<bar> then (rd (rx - 16), py) else (rd (rd (rx + rw) + 16), py))
         else
           (if \<bar>dyTop\<bar> < \<bar>dyBottom\<bar> then (px, rd (ry - 16)) else (px, rd (rd (ry + rh) + 16))))"

definition collideObstacle_fl :: "(real \<Rightarrow> real) \<Rightarrow> obstacle \<Rightarrow> game \<Rightarrow> game" where
  "collideObstacle_fl rd ob g =
     (let px = p_x (player g); py = p_y (player g) in
      if overlaps_fl rd px py (o_x ob) (o_y ob) (o_width ob) (o_height ob)
      then setPosition (pushOut_fl rd px py (o_x ob) (o_y ob) (o_width ob) (o_height ob)) g
      else g)"

definition collideObstacles_fl :: "(real \<Rightarrow> real) \<Rightarrow> obstacle list \<Rightarrow> game \<Rightarrow> game" where
  "collideObstacles_fl rd obs g = foldl (\<lambda>acc ob. collideObstacle_fl rd ob acc) g obs"


definition depth :: "real \<Rightarrow> real \<Rightarrow> real \<Rightarrow> real \<Rightarrow> real \<Rightarrow> real \<Rightarrow> real" where
  \<comment> \<open>how far the box at \<open>(px, py)\<close> reaches into the rectangle: the least of the four
      distances to a separating edge, positive exactly when they overlap\<close>
  "depth px py rx ry rw rh =
     min (min (px + 16 - rx) (rx + rw - (px - 16))) (min (py + 16 - ry) (ry + rh - (py - 16)))"

definition penetration :: "game \<Rightarrow> obstacle \<Rightarrow> real" where
  "penetration g ob =
     depth (p_x (player g)) (p_y (player g)) (o_x ob) (o_y ob) (o_width ob) (o_height ob)"



section \<open>The frame loop\<close>

text \<open>The function \<open>loop\<close> of \<open>initGame\<close> calls \<open>update(dt)\<close> once per frame; \<open>frames\<close> runs it
  for a list of frame deltas.\<close>

fun frames :: "rand \<Rightarrow> real list \<Rightarrow> game \<Rightarrow> js_error + game" where
  "frames rnd [] g = Inr g"
| "frames rnd (dt # dts) g =
     (case update rnd dt g of Inl e \<Rightarrow> Inl e | Inr g1 \<Rightarrow> frames rnd dts g1)"

section \<open>Example content\<close>

text \<open>Concrete states on which the theorems below are evaluated.\<close>

definition ex_world :: game where
  "ex_world = G_initial
     \<lparr>screen := \<lparr>scr_w = 800, scr_h = 600, safeBottom = 158\<rparr>,
      zones := [\<lparr>zone_id = ''zone1'', zone_name = ''Ruins'', zone_x = 0, zone_width = 800\<rparr>]\<rparr>"

definition ex_dialogue :: dialogue where
  "ex_dialogue =
     \<lparr>dlg_id = ''d1'',
      nodes = [\<lparr>node_id = ''n1'', speaker = ''npc_smith'', node_text = ''Do you need a key?'',
                grants_item_ids = None,
                options = Some [\<lparr>choice_text = ''Yes, please'', to_id = Some ''n9'',
                                 opt_grants_item_ids = Some [''key'']\<rparr>,
                                \<lparr>choice_text = ''Goodbye'', to_id = None,
                                 opt_grants_item_ids = None\<rparr>]\<rparr>,
               \<lparr>node_id = ''n2'', speaker = ''player'', node_text = ''Thanks'',
                grants_item_ids = Some [''map''], options = None\<rparr>]\<rparr>"

definition ex_quest :: quest_state where
  "ex_quest =
     \<lparr>qs_id = ''q1'', qs_title = ''Open the gate'', qs_is_main = True,
      steps = [\<lparr>goal = ''Bring the key'', location_hint = ''zone1'',
                requires_item_ids = Some [''key'']\<rparr>,
               \<lparr>goal = ''Bring the gem'', location_hint = ''zone1'',
                requires_item_ids = Some [''gem'']\<rparr>],
      status = NotStarted, currentStep = 0,
      stepAssignments = [''npc_smith'', ''npc_smith'']\<rparr>"

definition ex_talking :: game where
  "ex_talking = ex_world
     \<lparr>dialogues := [ex_dialogue],
      talk := Some \<lparr>talk_npcId = ''npc_smith'', talk_dialogueIndex = 0,
                    currentNode = hd (nodes ex_dialogue)\<rparr>\<rparr>"

definition ex_dangling_option :: dlg_option where
  "ex_dangling_option =
     \<lparr>choice_text = ''Yes, please'', to_id = Some ''n9'', opt_grants_item_ids = Some [''key'']\<rparr>"

definition ex_closing_option :: dlg_option where
  "ex_closing_option = \<lparr>choice_text = ''Goodbye'', to_id = None, opt_grants_item_ids = None\<rparr>"

definition ex_obstacle_A :: obstacle where
  "ex_obstacle_A = \<lparr>o_zoneIndex = 0, o_x = 200, o_y = 140, o_width = 100, o_height = 100\<rparr>"

definition ex_obstacle_B :: obstacle where
  "ex_obstacle_B = \<lparr>o_zoneIndex = 0, o_x = 310, o_y = 140, o_width = 100, o_height = 100\<rparr>"

definition ex_between :: game where
  "ex_between = ex_world
     \<lparr>player := (player ex_world)\<lparr>p_x := 305, p_y := 190\<rparr>,
      obstacles := [ex_obstacle_A, ex_obstacle_B]\<rparr>"


definition ex_door_building :: building where
  "ex_door_building =
     \<lparr>b_npcId = ''npc_smith'', b_zoneIndex = 0, b_x = 310, b_y = 140, b_width = 100,
      b_height = 100, b_doorX = 360, b_doorY = 240\<rparr>"

definition ex_hasted :: game where
  "ex_hasted = ex_world
     \<lparr>statusEffects := [\<lparr>eff_name = ''Haste'', eff_type = ''speed'', eff_value = 0.5, eff_time = 10\<rparr>]\<rparr>"

definition ex_smith :: npc where
  "ex_smith =
     \<lparr>npc_id = ''npc_smith'', npc_dialogueIndex = 0, npc_x = 400, npc_y = 240,
      npc_zoneIndex = 0, npc_skill = ''charisma'', npc_difficulty = 0.4,
      npc_dx = 0, npc_dy = 0\<rparr>"

definition ex_delivery :: game where
  "ex_delivery = ex_world
     \<lparr>player := (player ex_world)\<lparr>inventory := [''key'']\<rparr>,
      npcs := [ex_smith],
      questsState := [ex_quest\<lparr>status := InProgress\<rparr>]\<rparr>"

definition ex_started :: game where
  "ex_started = ex_world\<lparr>questsState := [ex_quest\<lparr>status := InProgress\<rparr>]\<rparr>"

definition ex_weak :: game where
  "ex_weak = ex_delivery\<lparr>player := (player ex_delivery)\<lparr>hp := 5\<rparr>\<rparr>"

section \<open>Skill check: properties\<close>

lemma bonus_foldl:
  "foldl (\<lambda>b eff. if eff_type eff = skill then b + eff_value eff else b) a effs =
   a + sum_list (map eff_value (filter (\<lambda>e. eff_type e = skill) effs))"
  by (induction effs arbitrary: a) auto

lemma performSkillCheck_state:
  "snd (performSkillCheck rnd skill d g) = g\<lparr>rand_draws := Suc (rand_draws g)\<rparr>"
  by (simp add: performSkillCheck_def Math_random_def Let_def)

text \<open>
  C4. The outcome of \<open>performSkillCheck\<close> is the comparison
  \<open>roll < base + bonus - difficulty + 0.5\<close>, a function of the four numbers only, where
  \<open>base\<close> is the player's level in the skill (0 if undefined), \<open>bonus\<close> the sum of the
  values of the active effects of that type and \<open>roll\<close> the one value drawn; the check
  changes nothing but the count of random draws. With roll 0 and a positive threshold it
  succeeds; with a threshold at or below 0 it fails for every roll in [0,1); with
  charisma 0.5, no effect, difficulty 0.4 and roll 0.05 it succeeds.
\<close>

theorem performSkillCheck_spec:
  "fst (performSkillCheck rnd skill d g) =
     spec_skillCheck (skill_base g skill) (skill_bonus g skill) d (rnd (rand_draws g))
   \<and> snd (performSkillCheck rnd skill d g) = g\<lparr>rand_draws := Suc (rand_draws g)\<rparr>
   \<and> (rnd (rand_draws g) = 0 \<and> 0 < skill_base g skill + skill_bonus g skill - d + 0.5
        \<longrightarrow> fst (performSkillCheck rnd skill d g))
   \<and> (0 \<le> rnd (rand_draws g) \<and> skill_base g skill + skill_bonus g skill - d + 0.5 \<le> 0
        \<longrightarrow> \<not> fst (performSkillCheck rnd skill d g))
   \<and> (map_of (skills (player g)) ''charisma'' = Some 0.5 \<and> statusEffects g = [] \<and>
       rnd (rand_draws g) = 0.05 \<longrightarrow> fst (performSkillCheck rnd ''charisma'' 0.4 g))"
  by (auto simp: performSkillCheck_def Math_random_def spec_skillCheck_def skill_base_def
        skill_bonus_def bonus_foldl Let_def)

theorem performSkillCheck_spec_witness:
  "fst (performSkillCheck (\<lambda>_. 0.05) ''charisma'' 0.4 G_initial)
   \<and> fst (performSkillCheck (\<lambda>_. 0) ''strength'' 0.8 G_initial)
   \<and> \<not> fst (performSkillCheck (\<lambda>_. 0.99) ''luck'' 0.6 G_initial)"
  using performSkillCheck_spec [of "\<lambda>_. 0.05" "''charisma''" "0.4" G_initial]
    performSkillCheck_spec [of "\<lambda>_. 0" "''strength''" "0.8" G_initial]
    performSkillCheck_spec [of "\<lambda>_. 0.99" "''luck''" "0.6" G_initial]
  by (simp add: G_initial_def skill_base_def skill_bonus_def spec_skillCheck_def)

section \<open>Dialogue item grants: properties\<close>

lemma grantItems_owned: "set ids \<subseteq> set (inventory (player g)) \<Longrightarrow> grantItems ids g = g"
  by (induction ids arbitrary: g) auto

lemma grantItems_gold:
  "gold (player (grantItems ids g)) + 5 * real (length (inventory (player g)))
   = gold (player g) + 5 * real (length (inventory (player (grantItems ids g))))"
proof (induction ids arbitrary: g)
  case Nil
  show ?case by simp
next
  case (Cons a ids)
  define g1 where "g1 = addMessage (Received (getItemName g a))
               (g\<lparr>player := (player g)
                    \<lparr>inventory := inventory (player g) @ [a],
                     gold := gold (player g) + 5\<rparr>\<rparr>)"
  show ?case
  proof (cases "a \<in> set (inventory (player g))")
    case True
    then show ?thesis using Cons.IH [of g] by simp
  next
    case False
    have "gold (player g1) = gold (player g) + 5"
      "length (inventory (player g1)) = Suc (length (inventory (player g)))"
      by (simp_all add: g1_def addMessage_def)
    moreover have "grantItems (a # ids) g = grantItems ids g1"
      using False by (simp add: g1_def)
    ultimately show ?thesis using Cons.IH [of g1] by simp
  qed
qed

lemma grantItems_preserves:
  assumes step: "\<And>h i. Q h \<Longrightarrow>
            Q (addMessage (Received (getItemName h i))
                 (h\<lparr>player := (player h)
                      \<lparr>inventory := inventory (player h) @ [i],
                       gold := gold (player h) + 5\<rparr>\<rparr>))"
    and init: "Q g"
  shows "Q (grantItems ids g)"
  using init
proof (induction ids arbitrary: g)
  case Nil
  then show ?case by simp
next
  case (Cons a ids)
  show ?case
  proof (cases "a \<in> set (inventory (player g))")
    case True
    then show ?thesis using Cons.IH [OF Cons.prems] by simp
  next
    case False
    then show ?thesis using Cons.IH [OF step [OF Cons.prems, of a]] by simp
  qed
qed

lemma grantItems_frame:
  "talk (grantItems ids g) = talk g"
  "dialogues (grantItems ids g) = dialogues g"
  "hp (player (grantItems ids g)) = hp (player g)"
  "maxHp (player (grantItems ids g)) = maxHp (player g)"
  "gold (player g) \<le> gold (player (grantItems ids g))"
proof -
  show "talk (grantItems ids g) = talk g"
    by (rule grantItems_preserves [where Q = "\<lambda>h. talk h = talk g"]) (simp_all add: addMessage_def)
  show "dialogues (grantItems ids g) = dialogues g"
    by (rule grantItems_preserves [where Q = "\<lambda>h. dialogues h = dialogues g"]) (simp_all add: addMessage_def)
  show "hp (player (grantItems ids g)) = hp (player g)"
    by (rule grantItems_preserves [where Q = "\<lambda>h. hp (player h) = hp (player g)"]) (simp_all add: addMessage_def)
  show "maxHp (player (grantItems ids g)) = maxHp (player g)"
    by (rule grantItems_preserves [where Q = "\<lambda>h. maxHp (player h) = maxHp (player g)"]) (simp_all add: addMessage_def)
  show "gold (player g) \<le> gold (player (grantItems ids g))"
    by (rule grantItems_preserves [where Q = "\<lambda>h. gold (player g) \<le> gold (player h)"]) (simp_all add: addMessage_def)
qed

text \<open>
  C7 (as amended). Granting an item id that the player already owns changes nothing: the
  item is not added again, no message is queued and no gold is awarded. The reward of 5
  gold comes only with an item that was not in the inventory, once per item added.
\<close>

theorem grantItems_new_only:
  "(set ids \<subseteq> set (inventory (player g)) \<longrightarrow> grantItems ids g = g)
   \<and> (i \<notin> set (inventory (player g)) \<longrightarrow>
        inventory (player (grantItems [i] g)) = inventory (player g) @ [i] \<and>
        gold (player (grantItems [i] g)) = gold (player g) + 5 \<and>
        messages (grantItems [i] g) = messages g @ [\<lparr>msg_text = Received (getItemName g i), msg_time = 3\<rparr>])
   \<and> gold (player (grantItems ids g)) =
       gold (player g) + 5 * (real (length (inventory (player (grantItems ids g))))
                              - real (length (inventory (player g))))"
  using grantItems_owned [of ids g] grantItems_gold [of ids g]
  by (auto simp: addMessage_def algebra_simps)

theorem grantItems_new_only_witness:
  "grantItems [''key''] (G_initial\<lparr>player := (player G_initial)\<lparr>inventory := [''key'']\<rparr>\<rparr>)
     = G_initial\<lparr>player := (player G_initial)\<lparr>inventory := [''key'']\<rparr>\<rparr>
   \<and> inventory (player (grantItems [''map'']
          (G_initial\<lparr>player := (player G_initial)\<lparr>inventory := [''key'']\<rparr>\<rparr>))) = [''key'', ''map'']
   \<and> gold (player (grantItems [''map'']
          (G_initial\<lparr>player := (player G_initial)\<lparr>inventory := [''key'']\<rparr>\<rparr>))) = 55"
  using grantItems_new_only [of "[''key'']"
      "G_initial\<lparr>player := (player G_initial)\<lparr>inventory := [''key'']\<rparr>\<rparr>" "''map''"]
  by (simp add: G_initial_def)

text \<open>
  The specification's version of C7 (gold is granted again for an item already owned)
  fails: with
  \<open>''key''\<close> in the inventory and 50 gold, a grant of \<open>''key''\<close> leaves 50 gold and
  queues no message.
\<close>

theorem grantItems_regrant_counterexample:
  "gold (player (grantItems [''key'']
      (G_initial\<lparr>player := (player G_initial)\<lparr>inventory := [''key'']\<rparr>\<rparr>))) = 50
   \<and> messages (grantItems [''key'']
      (G_initial\<lparr>player := (player G_initial)\<lparr>inventory := [''key'']\<rparr>\<rparr>)) = []
   \<and> gold (player (G_initial\<lparr>player := (player G_initial)\<lparr>inventory := [''key'']\<rparr>\<rparr>)) = 50"
  by (simp add: G_initial_def)

section \<open>Quest initialisation: properties\<close>

lemma assignSteps_no_npcs: "ss \<noteq> [] \<Longrightarrow> assignSteps [] qi i ss = Inl TypeError"
  by (cases ss) (auto simp: npcForStep_def)

lemma initQuests_no_npcs:
  "\<exists>q \<in> set quests. q_steps q \<noteq> [] \<Longrightarrow> initQuests [] qi quests = Inl TypeError"
proof (induction quests arbitrary: qi)
  case Nil then show ?case by simp
next
  case (Cons q quests)
  show ?case
  proof (cases "q_steps q = []")
    case True
    with Cons.prems have "\<exists>q \<in> set quests. q_steps q \<noteq> []" by auto
    from Cons.IH [OF this] True show ?thesis by simp
  next
    case False
    then show ?thesis by (simp add: assignSteps_no_npcs)
  qed
qed

lemma assignSteps_some:
  "ns \<noteq> [] \<Longrightarrow> \<exists>as. assignSteps ns qi i ss = Inr as \<and> length as = length ss"
proof (induction ss arbitrary: i)
  case Nil
  then show ?case by simp
next
  case (Cons s ss)
  from Cons.IH [OF Cons.prems, of "Suc i"] obtain as where
    "assignSteps ns qi (Suc i) ss = Inr as" "length as = length ss" by blast
  with Cons.prems show ?case by (simp add: npcForStep_def)
qed

lemma initQuests_some:
  "ns \<noteq> [] \<Longrightarrow> \<exists>qss. initQuests ns qi quests = Inr qss \<and>
     list_all (\<lambda>q. wellAssigned q \<and> status q = NotStarted) qss"
proof (induction quests arbitrary: qi)
  case Nil then show ?case by simp
next
  case (Cons q quests)
  from assignSteps_some [OF Cons.prems, of qi 0 "q_steps q"]
  obtain as where a: "assignSteps ns qi 0 (q_steps q) = Inr as" "length as = length (q_steps q)" by blast
  from Cons.IH [OF Cons.prems, of "Suc qi"] obtain rest where
    r: "initQuests ns (Suc qi) quests = Inr rest"
       "list_all (\<lambda>q. wellAssigned q \<and> status q = NotStarted) rest" by blast
  show ?case using a r by (simp add: wellAssigned_def)
qed

text \<open>
  C9. With no NPC and a quest that has a step, \<open>initQuestsState\<close> throws: the index
  \<open>(qIndex + i) % 0\<close> is NaN, \<open>G.npcs[NaN]\<close> is \<open>undefined\<close> and reading its \<open>id\<close>
  is a TypeError.
\<close>

theorem initQuestsState_no_npcs_throws:
  "npcs G_initial = [] \<and>
   initQuestsState
     [\<lparr>q_id = ''q1'', q_title = ''Lost compass'', q_is_main = True,
       q_steps = [\<lparr>goal = ''Find the lost compass'', location_hint = ''zone1'',
                   requires_item_ids = Some [''item_1'']\<rparr>]\<rparr>]
     G_initial = Inl TypeError"
  by (simp add: initQuestsState_def G_initial_def npcForStep_def)

section \<open>Item spawning: properties\<close>

lemma spawnObjects_result:
  "spawnObjects rnd ids g = Inr g' \<Longrightarrow>
   \<exists>news. g' = g\<lparr>objects := objects g @ news, rand_draws := rand_draws g + 3 * length ids\<rparr>
          \<and> map obj_itemId news = ids"
proof (induction ids arbitrary: g)
  case Nil
  then show ?case by auto
next
  case (Cons a ids)
  let ?k = "\<lfloor>rnd (rand_draws g) * real (if length (zones g) = 0 then 1 else length (zones g))\<rfloor>"
  let ?ob = "\<lparr>obj_itemId = a,
              obj_x = zone_x (zones g ! nat ?k) + rnd (Suc (rand_draws g)) * zone_width (zones g ! nat ?k),
              obj_y = 80 + rnd (Suc (Suc (rand_draws g))) * (scr_h (screen g) - safeBottom (screen g) - 120)\<rparr>"
  let ?g3 = "g\<lparr>rand_draws := Suc (Suc (Suc (rand_draws g))), objects := objects g @ [?ob]\<rparr>"
  from Cons.prems have ok: "0 \<le> ?k \<and> nat ?k < length (zones g)"
    by (simp add: Let_def Math_random_def split: if_splits)
  with Cons.prems have "spawnObjects rnd ids ?g3 = Inr g'"
    by (simp add: Let_def Math_random_def)
  from Cons.IH [OF this] obtain news where
    n: "g' = ?g3\<lparr>objects := objects ?g3 @ news, rand_draws := rand_draws ?g3 + 3 * length ids\<rparr>"
       "map obj_itemId news = ids" by blast
  have "g' = g\<lparr>objects := objects g @ (?ob # news), rand_draws := rand_draws g + 3 * length (a # ids)\<rparr>
        \<and> map obj_itemId (?ob # news) = a # ids"
    using n by simp
  then show ?case by (rule exI [of _ "?ob # news"])
qed

lemma floor_index:
  assumes "0 \<le> r" "r < 1" "0 < n"
  shows "0 \<le> \<lfloor>r * real n\<rfloor> \<and> nat \<lfloor>r * real n\<rfloor> < n"
proof -
  have a: "0 \<le> r * real n" using assms by simp
  have "r * real n < real n" using assms by simp
  then have "\<lfloor>r * real n\<rfloor> < int n" by (simp add: floor_less_iff)
  with a show ?thesis by (simp add: nat_less_iff)
qed

lemma spawnObjects_total:
  assumes z: "zones g \<noteq> []" and r: "\<And>k. 0 \<le> rnd k \<and> rnd k < 1"
  shows "\<exists>g'. spawnObjects rnd ids g = Inr g'"
  using z
proof (induction ids arbitrary: g)
  case Nil
  then show ?case by simp
next
  case (Cons a ids)
  have "0 \<le> \<lfloor>rnd (rand_draws g) * real (length (zones g))\<rfloor> \<and>
        nat \<lfloor>rnd (rand_draws g) * real (length (zones g))\<rfloor> < length (zones g)"
    using floor_index [of "rnd (rand_draws g)" "length (zones g)"] r Cons.prems by simp
  then show ?case using Cons.prems
    by (simp add: Let_def Math_random_def Cons.IH)
qed

lemma spawnObjects_no_zone:
  "zones g = [] \<Longrightarrow> ids \<noteq> [] \<Longrightarrow> spawnObjects rnd ids g = Inl TypeError"
  by (cases ids) (simp_all add: Let_def Math_random_def)

lemma spawnItemsForStep_result:
  assumes "spawnItemsForStep rnd qs k g = Inr g'"
  shows "\<exists>news. g' = g\<lparr>objects := objects g @ news, rand_draws := rand_draws g + 3 * length news\<rparr>
          \<and> map obj_itemId news = (if k < length (steps qs) then toSpawn g (steps qs ! k) else [])"
proof (cases "k < length (steps qs)")
  case True
  with assms have "spawnObjects rnd (toSpawn g (steps qs ! k)) g = Inr g'"
    by (simp add: spawnItemsForStep_def)
  from spawnObjects_result [OF this] obtain news where
    n: "g' = g\<lparr>objects := objects g @ news,
               rand_draws := rand_draws g + 3 * length (toSpawn g (steps qs ! k))\<rparr>"
       "map obj_itemId news = toSpawn g (steps qs ! k)" by blast
  from n(2) have "length news = length (toSpawn g (steps qs ! k))" by (metis length_map)
  with n True have "g' = g\<lparr>objects := objects g @ news, rand_draws := rand_draws g + 3 * length news\<rparr>
          \<and> map obj_itemId news = (if k < length (steps qs) then toSpawn g (steps qs ! k) else [])"
    by simp
  then show ?thesis by (rule exI [of _ news])
next
  case False
  with assms have "g' = g" by (simp add: spawnItemsForStep_def)
  then have "g' = g\<lparr>objects := objects g @ [], rand_draws := rand_draws g + 3 * length ([] :: world_object list)\<rparr>
          \<and> map obj_itemId [] = (if k < length (steps qs) then toSpawn g (steps qs ! k) else [])"
    using False by simp
  then show ?thesis by (rule exI [of _ "[]"])
qed

lemma toSpawn_after:
  assumes "map obj_itemId news = toSpawn g st"
  shows "toSpawn (g\<lparr>objects := objects g @ news, rand_draws := n\<rparr>) st = []"
proof -
  have "\<And>i. i \<in> set (toSpawn g st) \<Longrightarrow> list_ex (\<lambda>ob. obj_itemId ob = i) news"
    unfolding assms [symmetric] by (auto simp: list_ex_iff)
  then show ?thesis
    by (auto simp: toSpawn_def filter_empty_conv list_ex_iff)
qed

text \<open>
  What does hold of the spawning: an id that a dialogue node grants is never spawned, the
  ids spawned are those of \<open>toSpawn\<close> in order, and a second run right after the first
  adds nothing.
\<close>

lemma toSpawn_node_granted:
  "grantedByDialogue (dialogues g) itemId \<Longrightarrow> itemId \<notin> set (toSpawn g st)"
  by (simp add: toSpawn_def)

lemma spawnItemsForStep_idem:
  assumes "spawnItemsForStep rnd qs k g = Inr g'"
  shows "spawnItemsForStep rnd' qs k g' = Inr g'"
proof (cases "k < length (steps qs)")
  case True
  from spawnItemsForStep_result [OF assms] True obtain news where
    n: "g' = g\<lparr>objects := objects g @ news, rand_draws := rand_draws g + 3 * length news\<rparr>"
       "map obj_itemId news = toSpawn g (steps qs ! k)" by auto
  show ?thesis unfolding n(1) using True toSpawn_after [OF n(2)]
    by (simp add: spawnItemsForStep_def)
next
  case False
  then show ?thesis by (simp add: spawnItemsForStep_def)
qed

lemma toSpawn_cong:
  "dialogues a = dialogues b \<Longrightarrow> inventory (player a) = inventory (player b) \<Longrightarrow>
   objects a = objects b \<Longrightarrow> toSpawn a st = toSpawn b st"
  by (simp add: toSpawn_def)

text \<open>
  C5. The specification says that an item obtainable through any dialogue's item grants is never
  spawned as a world pickup. \<open>spawnItemsForStep\<close> only looks at the grants of dialogue
  nodes: here \<open>''key''\<close> is granted by an option of a node, so it is obtainable through
  the dialogue, and the step that requires it still spawns a \<open>''key''\<close> pickup.
\<close>

theorem spawnItemsForStep_option_grant:
  "spec_obtainableViaDialogue [ex_dialogue] ''key'' \<and>
   (case spawnItemsForStep (\<lambda>_. 1 / 2) ex_quest 0 (ex_world\<lparr>dialogues := [ex_dialogue]\<rparr>) of
      Inl e \<Rightarrow> [] | Inr g' \<Rightarrow> map obj_itemId (objects g')) = [''key'']"
  by (simp add: spec_obtainableViaDialogue_def ex_dialogue_def ex_quest_def ex_world_def
      G_initial_def spawnItemsForStep_def toSpawn_def grantedByDialogue_def required_def
      Math_random_def Let_def)

text \<open>
  Two further departures from the same property: a required id listed twice is spawned twice
  in one run (the list of ids to spawn is fixed before any pickup is created), and with no
  zone the spawning of any item throws.
\<close>

lemma spawnItemsForStep_twice_listed:
  "(case spawnItemsForStep (\<lambda>_. 1 / 2)
           (ex_quest\<lparr>steps := [\<lparr>goal = ''Bring two gems'', location_hint = ''zone1'',
                                  requires_item_ids = Some [''gem'', ''gem'']\<rparr>]\<rparr>) 0 ex_world of
      Inl e \<Rightarrow> [] | Inr g' \<Rightarrow> map obj_itemId (objects g')) = [''gem'', ''gem'']"
  by (simp add: ex_quest_def ex_world_def
      G_initial_def spawnItemsForStep_def toSpawn_def grantedByDialogue_def required_def
      Math_random_def Let_def)

lemma spawnItemsForStep_no_zone:
  "spawnItemsForStep (\<lambda>_. 1 / 2) ex_quest 0 G_initial = Inl TypeError"
  by (simp add: ex_quest_def 
      G_initial_def spawnItemsForStep_def toSpawn_def grantedByDialogue_def required_def
      Math_random_def Let_def)

section \<open>Starting a quest: properties\<close>

lemma find_firstIndex:
  "find P xs = Some x \<Longrightarrow> firstIndex P xs < length xs \<and> xs ! firstIndex P xs = x \<and> P x"
  by (induction xs) (auto simp: firstIndex_def split: if_splits)

text \<open>
  C6 (as amended). For the quest that \<open>find\<close> returns for the id: from not-started,
  \<open>startQuest\<close> sets the status to in-progress and \<open>currentStep\<close> to 0, queues the
  message "Started quest" and spawns the items of step 0 (it returns whenever there is a
  zone and the random draws lie in [0,1)); from any other status it returns the state
  unchanged, so status, \<open>currentStep\<close> and pickups stay as they are and no message is
  queued.
\<close>

theorem startQuest_cases:
  assumes "find (\<lambda>q. qs_id q = qid) (questsState g) = Some qs"
  shows "(status qs \<noteq> NotStarted \<longrightarrow> startQuest rnd qid g = Inr g)
     \<and> (status qs = NotStarted \<longrightarrow>
          (\<forall>g'. startQuest rnd qid g = Inr g' \<longrightarrow>
             questsState g' =
               (questsState g)[firstIndex (\<lambda>q. qs_id q = qid) (questsState g) :=
                                 qs\<lparr>status := InProgress, currentStep := 0\<rparr>] \<and>
             messages g' = messages g @ [\<lparr>msg_text = StartedQuest (qs_title qs), msg_time = 3\<rparr>] \<and>
             player g' = player g \<and>
             (\<exists>news. objects g' = objects g @ news \<and>
                 map obj_itemId news = (if steps qs = [] then [] else toSpawn g (steps qs ! 0))))
        \<and> (zones g \<noteq> [] \<and> (\<forall>k. 0 \<le> rnd k \<and> rnd k < 1) \<longrightarrow>
             (\<exists>g'. startQuest rnd qid g = Inr g')))"
proof (cases "status qs = NotStarted")
  case False
  with assms show ?thesis by (simp add: startQuest_def)
next
  case True
  define qs1 where "qs1 = qs\<lparr>status := InProgress, currentStep := 0\<rparr>"
  define g1 where "g1 = addMessage (StartedQuest (qs_title qs1))
      (g\<lparr>questsState := (questsState g)[firstIndex (\<lambda>q. qs_id q = qid) (questsState g) := qs1]\<rparr>)"
  have sq: "startQuest rnd qid g = spawnItemsForStep rnd qs1 0 g1"
    using assms True by (simp add: startQuest_def Let_def qs1_def g1_def)
  have ts: "toSpawn g1 st = toSpawn g st" for st
    by (simp add: toSpawn_def g1_def addMessage_def)
  have a: "questsState g' =
               (questsState g)[firstIndex (\<lambda>q. qs_id q = qid) (questsState g) := qs1] \<and>
             messages g' = messages g @ [\<lparr>msg_text = StartedQuest (qs_title qs), msg_time = 3\<rparr>] \<and>
             player g' = player g \<and>
             (\<exists>news. objects g' = objects g @ news \<and>
                 map obj_itemId news = (if steps qs = [] then [] else toSpawn g (steps qs ! 0)))"
    if "startQuest rnd qid g = Inr g'" for g'
  proof -
    from that sq have "spawnItemsForStep rnd qs1 0 g1 = Inr g'" by simp
    from spawnItemsForStep_result [OF this] obtain news where
      n: "g' = g1\<lparr>objects := objects g1 @ news, rand_draws := rand_draws g1 + 3 * length news\<rparr>"
         "map obj_itemId news = (if 0 < length (steps qs1) then toSpawn g1 (steps qs1 ! 0) else [])"
      by blast
    have "objects g' = objects g @ news \<and>
          map obj_itemId news = (if steps qs = [] then [] else toSpawn g (steps qs ! 0))"
      using n ts by (simp add: g1_def qs1_def addMessage_def)
    then have "\<exists>news. objects g' = objects g @ news \<and>
          map obj_itemId news = (if steps qs = [] then [] else toSpawn g (steps qs ! 0))" ..
    moreover have "questsState g' =
               (questsState g)[firstIndex (\<lambda>q. qs_id q = qid) (questsState g) := qs1]"
      "messages g' = messages g @ [\<lparr>msg_text = StartedQuest (qs_title qs), msg_time = 3\<rparr>]"
      "player g' = player g"
      using n(1) by (simp_all add: g1_def qs1_def addMessage_def)
    ultimately show ?thesis by simp
  qed
  have b: "\<exists>g'. startQuest rnd qid g = Inr g'"
    if "zones g \<noteq> []" "\<forall>k. 0 \<le> rnd k \<and> rnd k < 1"
  proof -
    have "zones g1 \<noteq> []" using that by (simp add: g1_def addMessage_def)
    from spawnObjects_total [OF this, of rnd] that(2) sq show ?thesis
      by (simp add: spawnItemsForStep_def)
  qed
  from True a b show ?thesis unfolding qs1_def by blast
qed

theorem startQuest_cases_witness:
  "startQuest (\<lambda>_. 1 / 2) ''q1'' ex_started = Inr ex_started
   \<and> (\<exists>g'. startQuest (\<lambda>_. 1 / 2) ''q1'' (ex_world\<lparr>questsState := [ex_quest]\<rparr>) = Inr g')"
  using startQuest_cases [of "''q1''" ex_started "ex_quest\<lparr>status := InProgress\<rparr>" "\<lambda>_. 1 / 2"]
    startQuest_cases [of "''q1''" "ex_world\<lparr>questsState := [ex_quest]\<rparr>" ex_quest "\<lambda>_. 1 / 2"]
  by (simp add: ex_started_def ex_world_def ex_quest_def G_initial_def)

text \<open>
  The specification's version of C6 (the no-op surfaces a user-facing message) fails: starting a quest
  that is in progress returns the very same state, whose message queue is empty.
\<close>

theorem startQuest_again_counterexample:
  "map status (questsState ex_started) = [InProgress]
   \<and> startQuest (\<lambda>_. 1 / 2) ''q1'' ex_started = Inr ex_started
   \<and> messages ex_started = []"
  by (simp add: ex_started_def ex_world_def ex_quest_def G_initial_def startQuest_def)

section \<open>Dialogue options: properties\<close>

lemma grantOptional_frame:
  "talk (grantOptional ids g) = talk g" "dialogues (grantOptional ids g) = dialogues g"
  by (cases ids; simp add: grantOptional_def grantItems_frame)+

text \<open>
  C3 (as amended). In a session, selecting an option that lacks a \<open>to_id\<close> (or whose
  \<open>to_id\<close> is the empty string) ends the conversation. Selecting an option whose \<open>to_id\<close>
  names no node of the dialogue raises no error and leaves the session on the current
  node, after the option's items were granted. An option whose \<open>to_id\<close> resolves moves
  the session to that node.
\<close>

theorem selectOption_cases:
  assumes "talk g = Some t"
  shows "(\<not> truthy (to_id opt) \<longrightarrow>
            selectOption opt g = Inr ((grantOptional (opt_grants_item_ids opt) g)\<lparr>talk := None\<rparr>))
       \<and> (truthy (to_id opt) \<and> talk_dialogueIndex t < length (dialogues g) \<and>
          find (\<lambda>n. Some (node_id n) = to_id opt) (nodes (dialogues g ! talk_dialogueIndex t)) = None
          \<longrightarrow> selectOption opt g = Inr (grantOptional (opt_grants_item_ids opt) g) \<and>
              talk (grantOptional (opt_grants_item_ids opt) g) = Some t)
       \<and> (\<forall>next. truthy (to_id opt) \<and> talk_dialogueIndex t < length (dialogues g) \<and>
          find (\<lambda>n. Some (node_id n) = to_id opt) (nodes (dialogues g ! talk_dialogueIndex t)) = Some next
          \<longrightarrow> (\<exists>g'. selectOption opt g = Inr g' \<and> talk g' = Some (t\<lparr>currentNode := next\<rparr>)))"
  using assms
  by (auto simp: selectOption_def Let_def grantOptional_frame)

theorem selectOption_cases_witness:
  "selectOption ex_closing_option ex_talking = Inr (ex_talking\<lparr>talk := None\<rparr>)
   \<and> (\<exists>g'. selectOption ex_dangling_option ex_talking = Inr g' \<and> talk g' = talk ex_talking)"
  using selectOption_cases [of ex_talking "the (talk ex_talking)" ex_closing_option]
    selectOption_cases [of ex_talking "the (talk ex_talking)" ex_dangling_option]
  by (simp add: ex_talking_def ex_world_def ex_dialogue_def G_initial_def
      ex_dangling_option_def ex_closing_option_def truthy_def grantOptional_def)

text \<open>
  The specification's version of C3 (an unresolved target ends the conversation) fails: the option
  \<open>''Yes, please''\<close> of the current node points to \<open>''n9''\<close>, which no node of the
  dialogue has, and after selecting it the session is still open on the same node.
\<close>

theorem selectOption_unresolved_counterexample:
  "ex_dangling_option \<in> set (the (options (currentNode (the (talk ex_talking)))))
   \<and> find (\<lambda>n. Some (node_id n) = to_id ex_dangling_option) (nodes ex_dialogue) = None
   \<and> (case selectOption ex_dangling_option ex_talking of
        Inl e \<Rightarrow> None
      | Inr g' \<Rightarrow> talk g') = talk ex_talking
   \<and> talk ex_talking \<noteq> None"
  by (simp add: ex_talking_def ex_world_def ex_dialogue_def G_initial_def
      ex_dangling_option_def selectOption_def truthy_def grantOptional_def addMessage_def Let_def)

section \<open>Collision with obstacles: properties\<close>











lemma collideObstacle_fl_exact: "collideObstacle_fl (\<lambda>x. x) ob g = collideObstacle ob g"
  by (simp add: collideObstacle_fl_def collideObstacle_def overlaps_fl_def overlaps_def
      pushOut_fl_def pushOut_def Let_def)

lemma collideObstacles_fl_exact: "collideObstacles_fl (\<lambda>x. x) obs g = collideObstacles obs g"
  by (simp add: collideObstacles_fl_def collideObstacles_def collideObstacle_fl_exact)


lemma overlaps_penetration: "overlapsObstacle g ob \<longleftrightarrow> 0 < penetration g ob"
  by (auto simp: overlapsObstacle_def overlaps_def penetration_def depth_def)




text \<open>The building loop can undo the obstacle loop in the same way: with one obstacle and a
  building 10 to its right, the tick ends with the box 22 inside the obstacle.\<close>

lemma building_pushes_back:
  "(case update (\<lambda>_. 1 / 2) 0.05
           (ex_between\<lparr>obstacles := [ex_obstacle_A], buildings := [ex_door_building]\<rparr>) of
        Inl e \<Rightarrow> None
      | Inr g' \<Rightarrow> Some (p_x (player g'), p_y (player g'), penetration g' ex_obstacle_A))
     = Some (294, 190, 22)"
  by (simp add: ex_between_def ex_world_def G_initial_def ex_obstacle_A_def ex_door_building_def
      overlaps_def collideObstacles_def collideObstacle_def collideBuilding_def pushOut_def
      penetration_def depth_def
      setPosition_def update_def updateWorld_def tickTimers_def Let_def)

section \<open>Status effects in the frame update: properties\<close>

lemma wanderStep_effects: "statusEffects (snd (wanderStep rnd c v dt n g)) = statusEffects g"
  by (simp add: wanderStep_def Let_def Math_random_def)

lemma wanderNPC_effects:
  "wanderNPC rnd dt n g = Inr (n', g') \<Longrightarrow> statusEffects g' = statusEffects g"
  by (auto simp: wanderNPC_def Let_def wanderStep_effects split: if_splits)

lemma wanderNPCs_effects:
  "wanderNPCs rnd dt ns g = Inr (ns', g') \<Longrightarrow> statusEffects g' = statusEffects g"
proof (induction ns arbitrary: g ns')
  case Nil
  then show ?case by simp
next
  case (Cons n ns)
  from Cons.prems obtain n1 g1 ns1 where
    a: "wanderNPC rnd dt n g = Inr (n1, g1)" and b: "wanderNPCs rnd dt ns g1 = Inr (ns1, g')"
    by (auto split: sum.splits prod.splits)
  from Cons.IH [OF b] wanderNPC_effects [OF a] show ?case by simp
qed

lemma collideObstacle_effects: "statusEffects (collideObstacle ob g) = statusEffects g"
  by (simp add: collideObstacle_def setPosition_def Let_def)

lemma collideObstacles_effects: "statusEffects (collideObstacles obs g) = statusEffects g"
  unfolding collideObstacles_def
  by (induction obs arbitrary: g) (simp_all add: collideObstacle_effects)

lemma collideBuilding_effects: "statusEffects (collideBuilding b g) = statusEffects g"
  by (simp add: collideBuilding_def setPosition_def Let_def)

lemma collideBuildings_effects:
  "statusEffects (foldl (\<lambda>acc b. collideBuilding b acc) g bs) = statusEffects g"
  by (induction bs arbitrary: g) (simp_all add: collideBuilding_effects)

lemma collectObjects_effects: "statusEffects (collectObjects obs g) = statusEffects g"
  by (induction obs arbitrary: g) (simp_all add: addMessage_def)

lemma updateWorld_effects:
  "updateWorld rnd dt g = Inr g' \<Longrightarrow> statusEffects g' = statusEffects g"
  by (auto simp: updateWorld_def Let_def collideObstacles_effects collideBuildings_effects
        collectObjects_effects split: sum.splits prod.splits dest!: wanderNPCs_effects)

lemma updateInterior_effects: "statusEffects (updateInterior rnd dt g) = statusEffects g"
  by (simp add: updateInterior_def Let_def wanderStep_effects split: option.splits)

lemma tickTimers_effects: "statusEffects (tickTimers dt g) = statusEffects g"
  by (simp add: tickTimers_def Let_def)

lemma update_effects:
  "update rnd dt g = Inr g' \<Longrightarrow> statusEffects g' = statusEffects g"
  by (auto simp: update_def Let_def tickTimers_effects updateInterior_effects
        split: sum.splits if_splits dest!: updateWorld_effects)

lemma frames_effects:
  "frames rnd dts g = Inr g' \<Longrightarrow> statusEffects g' = statusEffects g"
proof (induction dts arbitrary: g)
  case Nil
  then show ?case by simp
next
  case (Cons dt dts)
  from Cons.prems obtain g1 where a: "update rnd dt g = Inr g1" and b: "frames rnd dts g1 = Inr g'"
    by (auto split: sum.splits)
  from Cons.IH [OF b] update_effects [OF a] show ?case by simp
qed

text \<open>
  C1. The specification says that a tick of \<open>dt\<close> lowers the remaining time of every active effect
  by \<open>dt\<close> and removes the effects that ran out. \<open>update\<close> only reads the effects to
  derive the speed: after a tick of 0.05 the effect created with \<open>time = 10\<close> still has
  \<open>time = 10\<close> and still raises the speed from 120 to 180.
\<close>

theorem update_keeps_status_effects:
  "(case update (\<lambda>_. 1 / 2) 0.05 ex_hasted of
      Inl e \<Rightarrow> None
    | Inr g' \<Rightarrow> Some (statusEffects g', speed (player g')))
   = Some ([\<lparr>eff_name = ''Haste'', eff_type = ''speed'', eff_value = 0.5, eff_time = 10\<rparr>], 180)"
  by (simp add: ex_hasted_def ex_world_def G_initial_def update_def updateWorld_def
      collideObstacles_def tickTimers_def Let_def)

section \<open>Delivery: properties\<close>

lemma first_deliverable:
  assumes "qi < length qss" "deliverable npcId held (qss ! qi)"
  shows "\<exists>qj\<le>qi. deliverable npcId held (qss ! qj) \<and>
           (\<forall>j<qj. \<not> deliverable npcId held (qss ! j))"
proof -
  define qj where "qj = (LEAST j. deliverable npcId held (qss ! j))"
  have "deliverable npcId held (qss ! qj)"
    unfolding qj_def using assms(2) by (rule LeastI)
  moreover have "qj \<le> qi" unfolding qj_def using assms(2) by (rule Least_le)
  moreover have "\<forall>j<qj. \<not> deliverable npcId held (qss ! j)"
    unfolding qj_def using not_less_Least by blast
  ultimately show ?thesis by blast
qed

lemma deliverSearch_first:
  assumes "list_all wellAssigned qss" "qi < length qss" "deliverable npcId held (qss ! qi)"
    "\<forall>j<qi. \<not> deliverable npcId held (qss ! j)"
  shows "deliverSearch npcId held qss i = Inr (Some (i + qi, currentStep (qss ! qi)))"
  using assms
proof (induction qss arbitrary: i qi)
  case Nil
  then show ?case by simp
next
  case (Cons q qss)
  show ?case
  proof (cases qi)
    case 0
    with Cons.prems show ?thesis by (simp add: deliverable_def wellAssigned_def Let_def)
  next
    case (Suc m)
    from Cons.prems Suc have nd: "\<not> deliverable npcId held q" by auto
    have wf: "wellAssigned q" using Cons.prems by simp
    have step: "deliverSearch npcId held (q # qss) i = deliverSearch npcId held qss (Suc i)"
      using nd wf by (auto simp: deliverable_def wellAssigned_def Let_def)
    have "deliverSearch npcId held qss (Suc i) = Inr (Some (Suc i + m, currentStep (qss ! m)))"
      using Cons.prems Suc by (intro Cons.IH) auto
    with step Suc show ?thesis by simp
  qed
qed

lemma deliverSearch_Some:
  "deliverSearch npcId held qss i = Inr (Some (qi, k)) \<Longrightarrow>
   i \<le> qi \<and> qi - i < length qss \<and> k = currentStep (qss ! (qi - i)) \<and>
   k < length (steps (qss ! (qi - i))) \<and> deliverable npcId held (qss ! (qi - i))"
proof (induction qss arbitrary: i)
  case Nil
  then show ?case by simp
next
  case (Cons q qss)
  show ?case
  proof (cases "deliverSearch npcId held (q # qss) i = deliverSearch npcId held qss (Suc i)")
    case True
    with Cons.prems have "deliverSearch npcId held qss (Suc i) = Inr (Some (qi, k))" by simp
    from Cons.IH [OF this] show ?thesis by (auto simp: Suc_diff_Suc less_eq_Suc_le)
  next
    case False
    with Cons.prems show ?thesis
      by (auto simp: deliverable_def Let_def split: if_splits)
  qed
qed

lemma damagePlayer_frame:
  "inventory (player (damagePlayer a g)) = inventory (player g)"
  "questsState (damagePlayer a g) = questsState g"
  "objects (damagePlayer a g) = objects g"
  "rand_draws (damagePlayer a g) = rand_draws g"
  "dialogues (damagePlayer a g) = dialogues g"
  "zones (damagePlayer a g) = zones g"
  "maxHp (player (damagePlayer a g)) = maxHp (player g)"
  by (simp_all add: damagePlayer_def addMessage_def Let_def)

lemma damagePlayer_player:
  "player (damagePlayer a (g\<lparr>rand_draws := r, messages := ms\<rparr>)) = player (damagePlayer a g)"
  by (simp add: damagePlayer_def addMessage_def Let_def)

lemma finish_deliver:
  assumes info: "getDeliverInfoForNPC npcId g = Inr (Some (qi, k))"
      and npc: "find (\<lambda>n. npc_id n = npcId) (npcs g) = Some n"
  shows "\<exists>g3.
      player g3 = (player (afterCheck (fst (performSkillCheck rnd (npc_skill n) (npc_difficulty n) g)) g))
                    \<lparr>inventory := removeItems (required (steps (questsState g ! qi) ! k))
                                     (inventory (player g))\<rparr>
      \<and> questsState g3 = questsState g \<and> objects g3 = objects g
      \<and> rand_draws g3 = Suc (rand_draws g) \<and> zones g3 = zones g
      \<and> dialogues g3 = dialogues g \<and> screen g3 = screen g
      \<and> finishQuestStepsOnTalk rnd npcId g =
          (if length (steps (questsState g ! qi)) \<le> Suc k then
             Inr (g3\<lparr>questsState := (questsState g)[qi := (questsState g ! qi)
                                        \<lparr>currentStep := Suc k, status := Completed\<rparr>],
                      messages := messages g3 @
                         [\<lparr>msg_text = QuestCompleted (qs_title (questsState g ! qi)), msg_time = 3\<rparr>],
                      player := (player g3)\<lparr>gold := gold (player g3) + 50\<rparr>\<rparr>)
           else
             spawnItemsForStep rnd ((questsState g ! qi)\<lparr>currentStep := Suc k\<rparr>) (Suc k)
               (g3\<lparr>questsState := (questsState g)[qi := (questsState g ! qi)\<lparr>currentStep := Suc k\<rparr>],
                    messages := messages g3 @
                       [\<lparr>msg_text = StepCompleted (goal (steps (questsState g ! qi) ! k)), msg_time = 3\<rparr>],
                    player := (player g3)\<lparr>gold := gold (player g3) + 20\<rparr>\<rparr>))"
proof -
  let ?qs = "questsState g ! qi"
  let ?c = "performSkillCheck rnd (npc_skill n) (npc_difficulty n) g"
  let ?g1 = "g\<lparr>rand_draws := Suc (rand_draws g)\<rparr>"
  let ?g2 = "if fst ?c then addMessage (SkillCheckPassed (npc_skill n)) ?g1
             else damagePlayer 10 (addMessage (SkillCheckFailed (npc_skill n)) ?g1)"
  let ?g3 = "?g2\<lparr>player := (player ?g2)
                \<lparr>inventory := removeItems (required (steps ?qs ! k)) (inventory (player ?g2))\<rparr>\<rparr>"
  from deliverSearch_Some [OF info [unfolded getDeliverInfoForNPC_def]]
  have k: "k = currentStep ?qs" by simp
  have p: "player ?g2 = player (afterCheck (fst ?c) g)"
    using damagePlayer_player [where a = 10 and g = g and r = "Suc (rand_draws g)"
        and ms = "messages g @ [\<lparr>msg_text = SkillCheckFailed (npc_skill n), msg_time = 3\<rparr>]"]
    by (simp add: afterCheck_def addMessage_def)
  have inv: "inventory (player ?g2) = inventory (player g)"
    by (simp add: damagePlayer_frame addMessage_def)
  have f: "questsState ?g3 = questsState g" "objects ?g3 = objects g"
    "rand_draws ?g3 = Suc (rand_draws g)" "zones ?g3 = zones g" "dialogues ?g3 = dialogues g"
    "screen ?g3 = screen g"
    by (simp_all add: damagePlayer_def addMessage_def Let_def)
  have pl: "player ?g3 = (player (afterCheck (fst ?c) g))
                    \<lparr>inventory := removeItems (required (steps ?qs ! k)) (inventory (player g))\<rparr>"
    using p inv by simp
  have fin: "finishQuestStepsOnTalk rnd npcId g =
          (if length (steps ?qs) \<le> Suc k then
             Inr (?g3\<lparr>questsState := (questsState g)[qi := ?qs\<lparr>currentStep := Suc k, status := Completed\<rparr>],
                      messages := messages ?g3 @
                         [\<lparr>msg_text = QuestCompleted (qs_title ?qs), msg_time = 3\<rparr>],
                      player := (player ?g3)\<lparr>gold := gold (player ?g3) + 50\<rparr>\<rparr>)
           else
             spawnItemsForStep rnd (?qs\<lparr>currentStep := Suc k\<rparr>) (Suc k)
               (?g3\<lparr>questsState := (questsState g)[qi := ?qs\<lparr>currentStep := Suc k\<rparr>],
                    messages := messages ?g3 @
                       [\<lparr>msg_text = StepCompleted (goal (steps ?qs ! k)), msg_time = 3\<rparr>],
                    player := (player ?g3)\<lparr>gold := gold (player ?g3) + 20\<rparr>\<rparr>))"
    unfolding finishQuestStepsOnTalk_def info npc
    by (simp add: Let_def performSkillCheck_state k [symmetric] f addMessage_def)
  from pl f fin show ?thesis by (intro exI [of _ ?g3]) (simp only: simp_thms)
qed

lemma removeItems_distinct:
  "distinct held \<Longrightarrow> distinct (removeItems req held) \<and> set (removeItems req held) = set held - set req"
  unfolding removeItems_def
proof (induction req arbitrary: held)
  case Nil
  then show ?case by simp
next
  case (Cons a req)
  have d: "distinct (remove1 a held)" using Cons.prems by simp
  from Cons.IH [OF d] Cons.prems show ?case by auto
qed

text \<open>
  C2. Let the quest at index \<open>qi\<close> be the first quest in progress whose current step \<open>k\<close>
  is assigned to the NPC and whose required items are all held, and let \<open>n\<close> be the NPC of
  that id. Then \<open>finishQuestStepsOnTalk\<close> makes one skill check with the skill and the
  difficulty of \<open>n\<close> (one random draw); whatever its outcome, one occurrence of every
  required id is removed from the inventory (none is left when the inventory had no
  duplicates); a failed check costs the damage of 10, and the step advances all the same:
  \<open>currentStep\<close> becomes \<open>k + 1\<close>. If that is the number of steps, the quest is completed,
  50 gold are granted and no pickup is created; otherwise the quest stays in progress, 20
  gold are granted and the items of step \<open>k + 1\<close> are spawned. The call returns when the
  quest completes, and otherwise whenever there is a zone and the draws lie in [0,1).
\<close>

theorem deliver_step:
  assumes wf: "list_all wellAssigned (questsState g)"
      and qi: "qi < length (questsState g)"
      and del: "deliverable npcId (inventory (player g)) (questsState g ! qi)"
      and first: "\<forall>j<qi. \<not> deliverable npcId (inventory (player g)) (questsState g ! j)"
      and npc: "find (\<lambda>n. npc_id n = npcId) (npcs g) = Some n"
      and qs: "qs = questsState g ! qi"
      and k: "k = currentStep qs"
      and ok: "success = fst (performSkillCheck rnd (npc_skill n) (npc_difficulty n) g)"
  shows
   "(\<forall>g'. finishQuestStepsOnTalk rnd npcId g = Inr g' \<longrightarrow>
       inventory (player g') = removeItems (required (steps qs ! k)) (inventory (player g))
     \<and> (distinct (inventory (player g)) \<longrightarrow>
          set (inventory (player g')) = set (inventory (player g)) - set (required (steps qs ! k)))
     \<and> hp (player g') = hp (player (afterCheck success g))
     \<and> gold (player g') =
         gold (player (afterCheck success g)) + (if Suc k = length (steps qs) then 50 else 20)
     \<and> questsState g' =
         (questsState g)[qi := qs\<lparr>currentStep := Suc k,
             status := (if Suc k = length (steps qs) then Completed else InProgress)\<rparr>]
     \<and> (\<exists>news. objects g' = objects g @ news \<and>
           rand_draws g' = Suc (rand_draws g) + 3 * length news \<and>
           map obj_itemId news =
             (if Suc k = length (steps qs) then []
              else toSpawn (g\<lparr>player := (player g)
                      \<lparr>inventory := removeItems (required (steps qs ! k)) (inventory (player g))\<rparr>\<rparr>)
                     (steps qs ! Suc k))))
   \<and> (Suc k = length (steps qs) \<or> (zones g \<noteq> [] \<and> (\<forall>i. 0 \<le> rnd i \<and> rnd i < 1))
        \<longrightarrow> (\<exists>g'. finishQuestStepsOnTalk rnd npcId g = Inr g'))"
proof -
  have info: "getDeliverInfoForNPC npcId g = Inr (Some (qi, k))"
    using deliverSearch_first [OF wf qi del first, of 0] qs k
    by (simp add: getDeliverInfoForNPC_def)
  have w: "wellAssigned qs" using wf qi qs by (simp add: list_all_length)
  have st: "status qs = InProgress" and kl: "Suc k \<le> length (steps qs)"
    using del w qs k by (auto simp: deliverable_def wellAssigned_def)
  have same: "qs\<lparr>currentStep := Suc k, status := InProgress\<rparr> = qs\<lparr>currentStep := Suc k\<rparr>"
    using st by simp
  from finish_deliver [OF info npc, of rnd] obtain g3 where
    p3: "player g3 = (player (afterCheck success g))
                    \<lparr>inventory := removeItems (required (steps qs ! k)) (inventory (player g))\<rparr>"
    and f3: "questsState g3 = questsState g" "objects g3 = objects g"
      "rand_draws g3 = Suc (rand_draws g)" "zones g3 = zones g" "dialogues g3 = dialogues g"
    and fin: "finishQuestStepsOnTalk rnd npcId g =
          (if length (steps qs) \<le> Suc k then
             Inr (g3\<lparr>questsState := (questsState g)[qi := qs\<lparr>currentStep := Suc k, status := Completed\<rparr>],
                      messages := messages g3 @
                         [\<lparr>msg_text = QuestCompleted (qs_title qs), msg_time = 3\<rparr>],
                      player := (player g3)\<lparr>gold := gold (player g3) + 50\<rparr>\<rparr>)
           else
             spawnItemsForStep rnd (qs\<lparr>currentStep := Suc k\<rparr>) (Suc k)
               (g3\<lparr>questsState := (questsState g)[qi := qs\<lparr>currentStep := Suc k\<rparr>],
                    messages := messages g3 @
                       [\<lparr>msg_text = StepCompleted (goal (steps qs ! k)), msg_time = 3\<rparr>],
                    player := (player g3)\<lparr>gold := gold (player g3) + 20\<rparr>\<rparr>))"
    unfolding qs ok by blast
  let ?inv' = "removeItems (required (steps qs ! k)) (inventory (player g))"
  let ?mid = "g3\<lparr>questsState := (questsState g)[qi := qs\<lparr>currentStep := Suc k\<rparr>],
                    messages := messages g3 @
                       [\<lparr>msg_text = StepCompleted (goal (steps qs ! k)), msg_time = 3\<rparr>],
                    player := (player g3)\<lparr>gold := gold (player g3) + 20\<rparr>\<rparr>"
  have dist: "distinct (inventory (player g)) \<longrightarrow> set ?inv' = set (inventory (player g)) - set (required (steps qs ! k))"
    using removeItems_distinct by blast
  have part1: "inventory (player g') = ?inv'
     \<and> (distinct (inventory (player g)) \<longrightarrow>
          set (inventory (player g')) = set (inventory (player g)) - set (required (steps qs ! k)))
     \<and> hp (player g') = hp (player (afterCheck success g))
     \<and> gold (player g') =
         gold (player (afterCheck success g)) + (if Suc k = length (steps qs) then 50 else 20)
     \<and> questsState g' =
         (questsState g)[qi := qs\<lparr>currentStep := Suc k,
             status := (if Suc k = length (steps qs) then Completed else InProgress)\<rparr>]
     \<and> (\<exists>news. objects g' = objects g @ news \<and>
           rand_draws g' = Suc (rand_draws g) + 3 * length news \<and>
           map obj_itemId news =
             (if Suc k = length (steps qs) then []
              else toSpawn (g\<lparr>player := (player g)\<lparr>inventory := ?inv'\<rparr>\<rparr>) (steps qs ! Suc k)))"
    if r: "finishQuestStepsOnTalk rnd npcId g = Inr g'" for g'
  proof (cases "Suc k = length (steps qs)")
    case True
    with r fin have g': "g' = g3\<lparr>questsState := (questsState g)[qi := qs\<lparr>currentStep := Suc k, status := Completed\<rparr>],
                      messages := messages g3 @
                         [\<lparr>msg_text = QuestCompleted (qs_title qs), msg_time = 3\<rparr>],
                      player := (player g3)\<lparr>gold := gold (player g3) + 50\<rparr>\<rparr>"
      by simp
    have "objects g' = objects g @ [] \<and> rand_draws g' = Suc (rand_draws g) + 3 * length ([] :: world_object list)
          \<and> map obj_itemId [] = (if Suc k = length (steps qs) then []
              else toSpawn (g\<lparr>player := (player g)\<lparr>inventory := ?inv'\<rparr>\<rparr>) (steps qs ! Suc k))"
      using True by (simp add: g' f3)
    then have ex: "\<exists>news. objects g' = objects g @ news \<and>
           rand_draws g' = Suc (rand_draws g) + 3 * length news \<and>
           map obj_itemId news =
             (if Suc k = length (steps qs) then []
              else toSpawn (g\<lparr>player := (player g)\<lparr>inventory := ?inv'\<rparr>\<rparr>) (steps qs ! Suc k))"
      by (rule exI [of _ "[]"])
    show ?thesis using True dist ex by (simp add: g' p3)
  next
    case False
    with kl have lt: "Suc k < length (steps qs)" by simp
    with r fin have sp: "spawnItemsForStep rnd (qs\<lparr>currentStep := Suc k\<rparr>) (Suc k) ?mid = Inr g'"
      by simp
    from spawnItemsForStep_result [OF sp] lt obtain news where
      n: "g' = ?mid\<lparr>objects := objects ?mid @ news, rand_draws := rand_draws ?mid + 3 * length news\<rparr>"
         "map obj_itemId news = toSpawn ?mid (steps qs ! Suc k)"
      by auto
    have ts: "toSpawn ?mid (steps qs ! Suc k) =
              toSpawn (g\<lparr>player := (player g)\<lparr>inventory := ?inv'\<rparr>\<rparr>) (steps qs ! Suc k)"
      by (rule toSpawn_cong) (simp_all add: f3 p3)
    have "objects g' = objects g @ news \<and> rand_draws g' = Suc (rand_draws g) + 3 * length news
          \<and> map obj_itemId news = (if Suc k = length (steps qs) then []
              else toSpawn (g\<lparr>player := (player g)\<lparr>inventory := ?inv'\<rparr>\<rparr>) (steps qs ! Suc k))"
      using False n(2) ts by (simp add: n(1) f3)
    then have ex: "\<exists>news. objects g' = objects g @ news \<and>
           rand_draws g' = Suc (rand_draws g) + 3 * length news \<and>
           map obj_itemId news =
             (if Suc k = length (steps qs) then []
              else toSpawn (g\<lparr>player := (player g)\<lparr>inventory := ?inv'\<rparr>\<rparr>) (steps qs ! Suc k))"
      by (rule exI [of _ news])
    show ?thesis using False dist ex same by (simp add: n(1) p3)
  qed
  have part2: "\<exists>g'. finishQuestStepsOnTalk rnd npcId g = Inr g'"
    if t: "Suc k = length (steps qs) \<or> (zones g \<noteq> [] \<and> (\<forall>i. 0 \<le> rnd i \<and> rnd i < 1))"
  proof (cases "Suc k = length (steps qs)")
    case True
    with fin show ?thesis by simp
  next
    case False
    with t have z: "zones ?mid \<noteq> []" and r: "\<And>i. 0 \<le> rnd i \<and> rnd i < 1" by (simp_all add: f3)
    from False kl have lt: "Suc k < length (steps qs)" by simp
    from spawnObjects_total [OF z r] lt fin show ?thesis
      by (simp add: spawnItemsForStep_def)
  qed
  from part1 part2 show ?thesis by blast
qed

theorem deliver_step_witness:
  "\<exists>g'. finishQuestStepsOnTalk (\<lambda>_. 9 / 10) ''npc_smith'' ex_delivery = Inr g'
      \<and> inventory (player g') = []
      \<and> hp (player g') = 90
      \<and> gold (player g') = 70
      \<and> map currentStep (questsState g') = [1]
      \<and> map status (questsState g') = [InProgress]
      \<and> map obj_itemId (objects g') = [''gem'']"
proof -
  have wf: "list_all wellAssigned (questsState ex_delivery)"
    by (simp add: ex_delivery_def ex_world_def ex_quest_def G_initial_def wellAssigned_def)
  have qi: "0 < length (questsState ex_delivery)"
    by (simp add: ex_delivery_def ex_world_def ex_quest_def G_initial_def)
  have del: "deliverable ''npc_smith'' (inventory (player ex_delivery)) (questsState ex_delivery ! 0)"
    by (simp add: ex_delivery_def ex_world_def ex_quest_def G_initial_def deliverable_def required_def)
  have first: "\<forall>j<0. \<not> deliverable ''npc_smith'' (inventory (player ex_delivery)) (questsState ex_delivery ! j)"
    by simp
  have npc: "find (\<lambda>n. npc_id n = ''npc_smith'') (npcs ex_delivery) = Some ex_smith"
    by (simp add: ex_delivery_def ex_world_def G_initial_def ex_smith_def)
  have fail: "fst (performSkillCheck (\<lambda>_. 9 / 10) (npc_skill ex_smith) (npc_difficulty ex_smith) ex_delivery) = False"
    by (simp add: performSkillCheck_def Math_random_def Let_def ex_delivery_def ex_world_def
        G_initial_def ex_smith_def)
  note th = deliver_step [OF wf qi del first npc refl refl fail [symmetric]]
  have z: "zones ex_delivery \<noteq> [] \<and> (\<forall>i. (0::real) \<le> 9 / 10 \<and> (9 / 10 :: real) < 1)"
    by (simp add: ex_delivery_def ex_world_def G_initial_def)
  from th z obtain g' where r: "finishQuestStepsOnTalk (\<lambda>_. 9 / 10) ''npc_smith'' ex_delivery = Inr g'"
    by blast
  from th r have
    a: "inventory (player g') = removeItems (required (steps (questsState ex_delivery ! 0) ! currentStep (questsState ex_delivery ! 0))) (inventory (player ex_delivery))"
    and b: "hp (player g') = hp (player (afterCheck False ex_delivery))"
    and c: "gold (player g') = gold (player (afterCheck False ex_delivery)) +
         (if Suc (currentStep (questsState ex_delivery ! 0)) = length (steps (questsState ex_delivery ! 0)) then 50 else 20)"
    and d: "questsState g' = (questsState ex_delivery)[0 := (questsState ex_delivery ! 0)
         \<lparr>currentStep := Suc (currentStep (questsState ex_delivery ! 0)),
          status := (if Suc (currentStep (questsState ex_delivery ! 0)) = length (steps (questsState ex_delivery ! 0)) then Completed else InProgress)\<rparr>]"
    and e: "\<exists>news. objects g' = objects ex_delivery @ news \<and>
           rand_draws g' = Suc (rand_draws ex_delivery) + 3 * length news \<and>
           map obj_itemId news =
             (if Suc (currentStep (questsState ex_delivery ! 0)) = length (steps (questsState ex_delivery ! 0)) then []
              else toSpawn (ex_delivery\<lparr>player := (player ex_delivery)
                      \<lparr>inventory := removeItems (required (steps (questsState ex_delivery ! 0) ! currentStep (questsState ex_delivery ! 0))) (inventory (player ex_delivery))\<rparr>\<rparr>)
                     (steps (questsState ex_delivery ! 0) ! Suc (currentStep (questsState ex_delivery ! 0))))"
    by blast+
  have "inventory (player g') = []"
    using a by (simp add: ex_delivery_def ex_world_def ex_quest_def G_initial_def removeItems_def required_def)
  moreover have "hp (player g') = 90"
    using b by (simp add: ex_delivery_def ex_world_def G_initial_def afterCheck_def damagePlayer_def Let_def)
  moreover have "gold (player g') = 70"
    using c by (simp add: ex_delivery_def ex_world_def ex_quest_def G_initial_def afterCheck_def damagePlayer_def Let_def)
  moreover have "map currentStep (questsState g') = [1] \<and> map status (questsState g') = [InProgress]"
    using d by (simp add: ex_delivery_def ex_world_def ex_quest_def G_initial_def)
  moreover have "map obj_itemId (objects g') = [''gem'']"
    using e by (auto simp: ex_delivery_def ex_world_def ex_quest_def G_initial_def removeItems_def
        required_def toSpawn_def grantedByDialogue_def)
  ultimately show ?thesis using r by (intro exI [of _ g']) simp
qed

section \<open>Health and gold: properties\<close>

lemma healPlayer_ok: "player_ok g \<Longrightarrow> 0 \<le> a \<Longrightarrow> player_ok (healPlayer a g)"
  by (simp add: player_ok_def healPlayer_def addMessage_def)

lemma damagePlayer_ok: "player_ok g \<Longrightarrow> 0 \<le> a \<Longrightarrow> player_ok (damagePlayer a g)"
  by (auto simp: player_ok_def damagePlayer_def addMessage_def Let_def)

lemma afterCheck_ok: "player_ok g \<Longrightarrow> player_ok (afterCheck b g)"
  by (simp add: afterCheck_def damagePlayer_ok)

lemma grantItems_ok: "player_ok g \<Longrightarrow> player_ok (grantItems ids g)"
  using grantItems_frame(3-5) [where ids = ids and g = g] by (simp add: player_ok_def)

lemma purchaseItem_gold:
  "purchaseItem it g = Inr g' \<Longrightarrow>
   hp (player g') = hp (player g) \<and> maxHp (player g') = maxHp (player g) \<and>
   gold (player g') =
     (if getItemPrice it \<le> gold (player g) then gold (player g) - getItemPrice it
      else gold (player g))"
  by (auto simp: purchaseItem_def addMessage_def Let_def split: if_splits option.splits)

lemma finish_ok:
  assumes r: "finishQuestStepsOnTalk rnd npcId g = Inr g'" and ok: "player_ok g"
  shows "player_ok g'"
proof (cases "getDeliverInfoForNPC npcId g")
  case (Inl e)
  with r show ?thesis by (simp add: finishQuestStepsOnTalk_def)
next
  case (Inr info)
  show ?thesis
  proof (cases info)
    case None
    with r Inr have "g' = addMessage NoRequiredItems g" by (simp add: finishQuestStepsOnTalk_def)
    with ok show ?thesis by (simp add: player_ok_def addMessage_def)
  next
    case (Some qk)
    obtain qi k where qk: "qk = (qi, k)" by (cases qk)
    show ?thesis
    proof (cases "find (\<lambda>n. npc_id n = npcId) (npcs g)")
      case None
      with r Inr Some qk show ?thesis by (simp add: finishQuestStepsOnTalk_def)
    next
      case (Some n)
      let ?b = "fst (performSkillCheck rnd (npc_skill n) (npc_difficulty n) g)"
      from finish_deliver [OF Inr [unfolded \<open>info = Some qk\<close> qk] Some, of rnd] obtain g3 where
        p3: "player g3 = (player (afterCheck ?b g))
                    \<lparr>inventory := removeItems (required (steps (questsState g ! qi) ! k))
                                     (inventory (player g))\<rparr>"
        and fin: "finishQuestStepsOnTalk rnd npcId g =
          (if length (steps (questsState g ! qi)) \<le> Suc k then
             Inr (g3\<lparr>questsState := (questsState g)[qi := (questsState g ! qi)
                                        \<lparr>currentStep := Suc k, status := Completed\<rparr>],
                      messages := messages g3 @
                         [\<lparr>msg_text = QuestCompleted (qs_title (questsState g ! qi)), msg_time = 3\<rparr>],
                      player := (player g3)\<lparr>gold := gold (player g3) + 50\<rparr>\<rparr>)
           else
             spawnItemsForStep rnd ((questsState g ! qi)\<lparr>currentStep := Suc k\<rparr>) (Suc k)
               (g3\<lparr>questsState := (questsState g)[qi := (questsState g ! qi)\<lparr>currentStep := Suc k\<rparr>],
                    messages := messages g3 @
                       [\<lparr>msg_text = StepCompleted (goal (steps (questsState g ! qi) ! k)), msg_time = 3\<rparr>],
                    player := (player g3)\<lparr>gold := gold (player g3) + 20\<rparr>\<rparr>))"
        by blast
      have a: "player_ok (afterCheck ?b g)" using ok by (rule afterCheck_ok)
      show ?thesis
      proof (cases "length (steps (questsState g ! qi)) \<le> Suc k")
        case True
        with r fin a show ?thesis by (auto simp: player_ok_def p3)
      next
        case False
        with r fin obtain mid where
          sp: "spawnItemsForStep rnd ((questsState g ! qi)\<lparr>currentStep := Suc k\<rparr>) (Suc k) mid = Inr g'"
          and m: "player mid = (player g3)\<lparr>gold := gold (player g3) + 20\<rparr>"
          by auto
        from spawnItemsForStep_result [OF sp] have "player g' = player mid" by auto
        with m a show ?thesis by (simp add: player_ok_def p3)
      qed
    qed
  qed
qed

lemma player_ok_initial: "player_ok G_initial"
  by (simp add: player_ok_def G_initial_def)

text \<open>
  C10. If \<open>gold \<ge> 0\<close> and \<open>0 < hp \<le> maxHp\<close> hold, they hold again after every operation
  that changes hp or gold: healing and damage by a non-negative amount, a purchase, an
  item grant and a delivery. Healing clamps hp to \<open>maxHp\<close> and leaves the gold; damage that
  brings hp to zero or below resets hp to \<open>maxHp\<close>, puts the player at the screen centre
  and takes 10 gold, floored at zero, and any other damage only lowers hp; a purchase
  debits the price exactly when the gold covers it.
\<close>

theorem hp_gold_invariant:
  assumes "player_ok g"
  shows "(0 \<le> a \<longrightarrow> player_ok (healPlayer a g) \<and> player_ok (damagePlayer a g))
    \<and> hp (player (healPlayer a g)) = min (maxHp (player g)) (hp (player g) + a)
    \<and> gold (player (healPlayer a g)) = gold (player g)
    \<and> (hp (player g) - a \<le> 0 \<longrightarrow>
         hp (player (damagePlayer a g)) = maxHp (player g) \<and>
         p_x (player (damagePlayer a g)) = scr_w (screen g) / 2 \<and>
         p_y (player (damagePlayer a g)) = scr_h (screen g) / 2 \<and>
         gold (player (damagePlayer a g)) = max 0 (gold (player g) - 10))
    \<and> (0 < hp (player g) - a \<longrightarrow>
         player (damagePlayer a g) = (player g)\<lparr>hp := hp (player g) - a\<rparr>)
    \<and> (\<forall>g'. purchaseItem it g = Inr g' \<longrightarrow>
         player_ok g' \<and>
         gold (player g') =
           (if getItemPrice it \<le> gold (player g) then gold (player g) - getItemPrice it
            else gold (player g)))
    \<and> player_ok (grantItems ids g)
    \<and> (\<forall>g'. finishQuestStepsOnTalk rnd npcId g = Inr g' \<longrightarrow> player_ok g')"
proof -
  have 1: "0 \<le> a \<longrightarrow> player_ok (healPlayer a g) \<and> player_ok (damagePlayer a g)"
    using assms healPlayer_ok damagePlayer_ok by blast
  have 2: "hp (player (healPlayer a g)) = min (maxHp (player g)) (hp (player g) + a)
           \<and> gold (player (healPlayer a g)) = gold (player g)"
    by (simp add: healPlayer_def addMessage_def)
  have 3: "hp (player g) - a \<le> 0 \<longrightarrow>
         hp (player (damagePlayer a g)) = maxHp (player g) \<and>
         p_x (player (damagePlayer a g)) = scr_w (screen g) / 2 \<and>
         p_y (player (damagePlayer a g)) = scr_h (screen g) / 2 \<and>
         gold (player (damagePlayer a g)) = max 0 (gold (player g) - 10)"
    by (simp add: damagePlayer_def addMessage_def Let_def)
  have 4: "0 < hp (player g) - a \<longrightarrow>
         player (damagePlayer a g) = (player g)\<lparr>hp := hp (player g) - a\<rparr>"
    by (simp add: damagePlayer_def addMessage_def Let_def)
  have 5: "\<forall>g'. purchaseItem it g = Inr g' \<longrightarrow>
         player_ok g' \<and>
         gold (player g') =
           (if getItemPrice it \<le> gold (player g) then gold (player g) - getItemPrice it
            else gold (player g))"
  proof (intro allI impI)
    fix g' assume p: "purchaseItem it g = Inr g'"
    from purchaseItem_gold [OF p] assms
    show "player_ok g' \<and>
         gold (player g') =
           (if getItemPrice it \<le> gold (player g) then gold (player g) - getItemPrice it
            else gold (player g))"
      by (auto simp: player_ok_def)
  qed
  have 6: "player_ok (grantItems ids g)" using assms by (rule grantItems_ok)
  have 7: "\<forall>g'. finishQuestStepsOnTalk rnd npcId g = Inr g' \<longrightarrow> player_ok g'"
    using assms finish_ok by blast
  from 1 2 3 4 5 6 7 show ?thesis by simp
qed

theorem hp_gold_invariant_witness:
  "player_ok ex_weak
   \<and> player_ok (healPlayer 30 ex_weak) \<and> hp (player (healPlayer 30 ex_weak)) = 35
   \<and> hp (player (healPlayer 30 ex_delivery)) = 100
   \<and> player_ok (damagePlayer 10 ex_weak)
   \<and> hp (player (damagePlayer 10 ex_weak)) = 100
   \<and> gold (player (damagePlayer 10 ex_weak)) = 40
   \<and> p_x (player (damagePlayer 10 ex_weak)) = 400
   \<and> player (damagePlayer 10 ex_delivery) = (player ex_delivery)\<lparr>hp := 90\<rparr>"
proof -
  have a: "player_ok ex_weak" "player_ok ex_delivery"
    by (simp_all add: player_ok_def ex_weak_def ex_delivery_def ex_world_def G_initial_def)
  show ?thesis
    using a hp_gold_invariant [OF a(1), of 30] hp_gold_invariant [OF a(1), of 10]
      hp_gold_invariant [OF a(2), of 30] hp_gold_invariant [OF a(2), of 10]
    by (simp add: ex_weak_def ex_delivery_def ex_world_def G_initial_def)
qed

text \<open>A failed delivery check at 5 hp: the player faints, so the 10 gold are lost before
  the reward of 20 is added (50 - 10 + 20).\<close>

lemma failed_delivery_costs_gold:
  "(case finishQuestStepsOnTalk (\<lambda>_. 9 / 10) ''npc_smith'' ex_weak of
      Inl e \<Rightarrow> None
    | Inr g' \<Rightarrow> Some (hp (player g'), gold (player g'), p_x (player g'), p_y (player g')))
   = Some (100, 60, 400, 300)"
  by (simp add: finishQuestStepsOnTalk_def getDeliverInfoForNPC_def ex_weak_def ex_delivery_def
      ex_world_def ex_quest_def ex_smith_def G_initial_def required_def performSkillCheck_def
      Math_random_def damagePlayer_def addMessage_def removeItems_def spawnItemsForStep_def
      toSpawn_def grantedByDialogue_def Let_def)

end
